theory Spec2Isabelle
  imports Main
begin

section \<open>JavaScript strings\<close>

text \<open>
  A JavaScript string is a sequence of UTF-16 code units. A code unit is modelled by its
  number, so every string the program can hold is a list of naturals below 65536;
  \<open>length\<close>, \<open>at\<close> and \<open>slice\<close> count code units, as the source's do.
  \<open>js\<close> writes an ASCII literal as such a string.
\<close>

type_synonym jschar = nat
type_synonym jsstring = "jschar list"

definition js :: "string \<Rightarrow> jsstring" where
  "js cs = map of_char cs"

text \<open>
  White space and line terminators of ECMAScript: what \<open>trimEnd\<close> removes and what
  the regular expression class \<open>\s\<close> matches (TAB, LF, VT, FF, CR, SP, NBSP, U+1680,
  U+2000..U+200A, U+2028, U+2029, U+202F, U+205F, U+3000, U+FEFF).
\<close>

definition isJsSpace :: "jschar \<Rightarrow> bool" where
  "isJsSpace c = ((9 \<le> c \<and> c \<le> 13) \<or> c = 32 \<or> c = 160 \<or> c = 5760 \<or>
     (8192 \<le> c \<and> c \<le> 8202) \<or> c = 8232 \<or> c = 8233 \<or> c = 8239 \<or> c = 8287 \<or>
     c = 12288 \<or> c = 65279)"

text \<open>Line terminators: LF, CR, U+2028, U+2029.\<close>

definition isLineTerminator :: "jschar \<Rightarrow> bool" where
  "isLineTerminator c = (c = 10 \<or> c = 13 \<or> c = 8232 \<or> c = 8233)"

definition trimEnd :: "jsstring \<Rightarrow> jsstring" where
  "trimEnd s = rev (dropWhile isJsSpace (rev s))"

text \<open>\<open>s.includes(t)\<close>: \<open>t\<close> occurs in \<open>s\<close> as a substring.\<close>

fun str_includes :: "jsstring \<Rightarrow> jsstring \<Rightarrow> bool" where
  "str_includes [] t = (t = [])"
| "str_includes (c # cs) t = (take (length t) (c # cs) = t \<or> str_includes cs t)"

text \<open>\<open>s.at(-1) || ""\<close>: the last code unit as a string, the empty string when there is none.\<close>

definition atLastOrEmpty :: "jsstring \<Rightarrow> jsstring" where
  "atLastOrEmpty s = (if s = [] then [] else [last s])"

text \<open>\<open>s.slice(0, -1)\<close>: all but the last code unit; empty for the empty string.\<close>

definition sliceInit :: "jsstring \<Rightarrow> jsstring" where
  "sliceInit s = butlast s"

section \<open>ANSI handling and spinner suppression (heuristics/ansi.ts)\<close>

text \<open>
  \<open>ANSI_REGEX = /\u001b\[[0-9;]*m/g\<close>. \<open>matchSgr s\<close> matches the expression at the
  start of \<open>s\<close> and returns what follows the match: ESC, \<open>[\<close>, the longest run of
  digits and semicolons, then \<open>m\<close>. (The run is greedy; a shorter run is followed by a
  digit or a semicolon, never by \<open>m\<close>, so backtracking finds no other match.)
\<close>

definition isSgrParam :: "jschar \<Rightarrow> bool" where
  "isSgrParam c = ((48 \<le> c \<and> c \<le> 57) \<or> c = 59)"

definition matchSgr :: "jsstring \<Rightarrow> jsstring option" where
  "matchSgr s =
     (case s of
        c # d # ds \<Rightarrow>
          if c = 27 \<and> d = 91 then
            (case dropWhile isSgrParam ds of
               e # es \<Rightarrow> if e = 109 then Some es else None
             | [] \<Rightarrow> None)
          else None
      | _ \<Rightarrow> None)"

text \<open>
  \<open>stripAnsi(s) = s.replace(ANSI_REGEX, "")\<close>: scan from the left; a match is dropped and
  the scan goes on after it, any other code unit is kept.
\<close>

function stripAnsi :: "jsstring \<Rightarrow> jsstring" where
  "stripAnsi [] = []"
| "stripAnsi (c # cs) =
     (case matchSgr (c # cs) of
        Some r \<Rightarrow> stripAnsi r
      | None \<Rightarrow> c # stripAnsi cs)"
  by pat_completeness auto
termination
proof (relation "measure length")
  show "wf (measure length)" by simp
next
  fix c :: jschar and cs r :: jsstring
  assume m: "matchSgr (c # cs) = Some r"
  then obtain d ds e where cs: "cs = d # ds" and dw: "dropWhile isSgrParam ds = e # r"
    by (auto simp: matchSgr_def split: list.splits if_splits)
  have "length (dropWhile isSgrParam ds) \<le> length ds"
    by (rule length_dropWhile_le)
  with dw cs have "length r < length (c # cs)" by simp
  then show "(r, c # cs) \<in> measure length" by simp
next
  fix c :: jschar and cs :: jsstring
  show "(cs, c # cs) \<in> measure length" by simp
qed

text \<open>The spinner characters \<open>"|/-\\"\<close>: bar, slash, minus, backslash.\<close>

definition spinners :: jsstring where
  "spinners = [124, 47, 45, 92]"

definition isLikelySpinnerFrame :: "jsstring \<Rightarrow> jsstring \<Rightarrow> bool" where
  "isLikelySpinnerFrame prev nxt =
     (let a = trimEnd (stripAnsi prev);
          b = trimEnd (stripAnsi nxt)
      in if length a \<noteq> length b then False
         else let la = atLastOrEmpty a;
                  lb = atLastOrEmpty b
              in if \<not> str_includes spinners la \<or> \<not> str_includes spinners lb then False
                 else sliceInit a = sliceInit b)"

section \<open>Regular expressions of the prompt detector\<close>

text \<open>
  The fragment of ECMAScript regular expressions that \<open>heuristics/prompts.ts\<close> uses,
  with the \<open>m\<close> flag: a character class (negated or not, given by its ranges), the
  assertions \<open>^\<close> and \<open>$\<close> (start or end of input, or next to a line terminator),
  sequence, alternative and \<open>*\<close>. A position in the subject is the code unit before it
  (none at the start) and the rest of the subject. \<open>ends r p\<close> lists the positions at
  which a match of \<open>r\<close> that starts at \<open>p\<close> can end; \<open>RegExp.prototype.test\<close> asks
  whether a match starts anywhere, and the expressions have no \<open>g\<close> flag, so \<open>test\<close>
  keeps no state.
\<close>

datatype rx =
    Cls bool "(jschar \<times> jschar) list"
  | Bol
  | Eol
  | Eps
  | Seq rx rx
  | Alt rx rx
  | Star rx

type_synonym cursor = "jschar option \<times> jsstring"

fun inRanges :: "(jschar \<times> jschar) list \<Rightarrow> jschar \<Rightarrow> bool" where
  "inRanges [] c = False"
| "inRanges ((lo, hi) # rs) c = ((lo \<le> c \<and> c \<le> hi) \<or> inRanges rs c)"

primrec ends :: "rx \<Rightarrow> cursor \<Rightarrow> cursor list" where
  "ends (Cls neg rs) p =
     (case snd p of
        [] \<Rightarrow> []
      | c # cs \<Rightarrow> if inRanges rs c \<noteq> neg then [(Some c, cs)] else [])"
| "ends Bol p =
     (case fst p of
        None \<Rightarrow> [p]
      | Some c \<Rightarrow> if isLineTerminator c then [p] else [])"
| "ends Eol p =
     (case snd p of
        [] \<Rightarrow> [p]
      | c # cs \<Rightarrow> if isLineTerminator c then [p] else [])"
| "ends Eps p = [p]"
| "ends (Seq a b) p = concat (map (ends b) (ends a p))"
| "ends (Alt a b) p = ends a p @ ends b p"
| "ends (Star a) p =
     ((\<lambda>ps. remdups (ps @ concat (map (ends a) ps))) ^^ Suc (length (snd p))) [p]"

fun searchFrom :: "rx \<Rightarrow> jschar option \<Rightarrow> jsstring \<Rightarrow> bool" where
  "searchFrom r prev [] = (ends r (prev, []) \<noteq> [])"
| "searchFrom r prev (c # cs) = (ends r (prev, c # cs) \<noteq> [] \<or> searchFrom r (Some c) cs)"

definition rx_test :: "rx \<Rightarrow> jsstring \<Rightarrow> bool" where
  "rx_test r s = searchFrom r None s"

definition chr :: "jschar \<Rightarrow> rx" where
  "chr c = Cls False [(c, c)]"

definition rx_space :: rx where
  "rx_space = Cls False [(9, 13), (32, 32), (160, 160), (5760, 5760), (8192, 8202),
     (8232, 8233), (8239, 8239), (8287, 8287), (12288, 12288), (65279, 65279)]"

fun seqs :: "rx list \<Rightarrow> rx" where
  "seqs [] = Eps"
| "seqs [r] = r"
| "seqs (r # rs) = Seq r (seqs rs)"

section \<open>Prompt detection (heuristics/prompts.ts)\<close>

text \<open>\<open>/(\n|\r|^)PS [^\n>]+>\s$/m\<close>, the PowerShell prompt.\<close>

definition powershellPrompt :: rx where
  "powershellPrompt =
     seqs [Alt (chr 10) (Alt (chr 13) Bol), chr 80, chr 83, chr 32,
           Cls True [(10, 10), (62, 62)], Star (Cls True [(10, 10), (62, 62)]),
           chr 62, rx_space, Eol]"

text \<open>\<open>/(\n|\r|^)[^\n]*[$#]\s$/m\<close>, the prompt of POSIX shells.\<close>

definition posixPrompt :: rx where
  "posixPrompt =
     seqs [Alt (chr 10) (Alt (chr 13) Bol), Star (Cls True [(10, 10)]),
           Cls False [(36, 36), (35, 35)], rx_space, Eol]"

definition COMMON_PROMPTS :: "rx list" where
  "COMMON_PROMPTS = [powershellPrompt, posixPrompt]"

definition detectPrompt :: "jsstring \<Rightarrow> rx option" where
  "detectPrompt line = (let clean = stripAnsi line in find (\<lambda>re. rx_test re clean) COMMON_PROMPTS)"

section \<open>Sessions (sessions.ts)\<close>

datatype SessionStatus = Idle | Running | Waiting | PossiblyStuck | Completed | Error

text \<open>
  Messages that the source builds with template strings are kept structured:
  \<open>ProcessExited code sig\<close> is \<open>Process exited with code <code>\<close>, followed by
  \<open>, signal: <sig>\<close> when a signal is given; \<open>FailedToStartCommand m\<close> is
  \<open>Failed to start command: <m>\<close>, \<open>MethodNotFound m\<close> is \<open>Method not found: <m>\<close>.
\<close>

datatype message =
    Text jsstring
  | FailedToStartCommand message
  | ProcessExited "int option" "jsstring option"
  | CommandTimedOut
  | SessionNotFound
  | SessionNotFoundOrNotActive
  | MethodNotFound jsstring

type_synonym timer = nat
type_synonym adapter_id = nat

text \<open>
  The fields of \<open>interface Session\<close>. An optional field is an option; \<open>exitCode\<close> and
  \<open>exitSignal\<close> are \<open>None\<close> while undefined and \<open>Some None\<close> when \<open>null\<close>. A timer field
  holds the handle that \<open>setTimeout\<close> or \<open>setInterval\<close> returned; whether that timer is
  still armed is a matter of the event loop (\<open>timers\<close> below). \<open>adapter\<close> names the
  spawned process. Numbers are integers.
\<close>

record Session =
  sid :: jsstring
  buf :: "jsstring list"
  lastByteAt :: int
  status :: SessionStatus
  errorReason :: "message option"
  promptRe :: "rx option"
  quietTimer :: "timer option"
  idleTimer :: "timer option"
  exitCode :: "int option option"
  exitSignal :: "jsstring option option"
  totalBytes :: int
  maxBufferBytes :: int
  adapter :: "adapter_id option"

text \<open>\<open>SessionStore.newSession\<close>; the random id and \<open>Date.now()\<close> are inputs.\<close>

definition newSession :: "jsstring \<Rightarrow> int \<Rightarrow> Session" where
  "newSession i now =
     \<lparr>sid = i, buf = [], lastByteAt = now, status = Idle, errorReason = None,
      promptRe = None, quietTimer = None, idleTimer = None, exitCode = None,
      exitSignal = None, totalBytes = 0, maxBufferBytes = 2000000, adapter = None\<rparr>"

text \<open>
  \<open>Buffer.byteLength(text, "utf8")\<close>: one byte below U+0080, two below U+0800, four for
  a surrogate pair, three otherwise (a lone surrogate is encoded as U+FFFD).
\<close>

definition utf8Width :: "jschar \<Rightarrow> nat" where
  "utf8Width c = (if c < 128 then 1 else if c < 2048 then 2 else 3)"

definition isHighSurrogate :: "jschar \<Rightarrow> bool" where
  "isHighSurrogate c = (55296 \<le> c \<and> c \<le> 56319)"

definition isLowSurrogate :: "jschar \<Rightarrow> bool" where
  "isLowSurrogate c = (56320 \<le> c \<and> c \<le> 57343)"

fun byteLength :: "jsstring \<Rightarrow> nat" where
  "byteLength [] = 0"
| "byteLength [c] = utf8Width c"
| "byteLength (c # d # cs) =
     (if isHighSurrogate c \<and> isLowSurrogate d then 4 + byteLength cs
      else utf8Width c + byteLength (d # cs))"

text \<open>
  \<open>text.split(/\r?\n/)\<close>: the lines between line feeds, a carriage return right before
  a line feed belonging to the separator. The result always has at least one line.
\<close>

fun splitLines :: "jsstring \<Rightarrow> jsstring list" where
  "splitLines [] = [[]]"
| "splitLines [c] = (if c = 10 then [[], []] else [[c]])"
| "splitLines (c # d # cs) =
     (if c = 10 then [] # splitLines (d # cs)
      else if c = 13 \<and> d = 10 then [] # splitLines cs
      else (case splitLines (d # cs) of
              l # ls \<Rightarrow> (c # l) # ls
            | [] \<Rightarrow> [[c]]))"

section \<open>The event loop, and what one \<open>terminal.run\<close> call closes over\<close>

text \<open>
  Timers are those of the host's event loop: \<open>setTimeout\<close> and \<open>setInterval\<close> arm a
  timer and return a fresh handle, \<open>clearTimeout\<close> and \<open>clearInterval\<close> disarm the timer
  of a handle, an armed timer may fire, and a one-shot leaves the armed timers when it
  fires. \<open>timers\<close> lists the armed timers with the callback each one runs.
\<close>

datatype timer_kind = QuietComplete | IdlePoll | RunTimeout | StoreRemove

datatype adapter_call = AdapterWrite adapter_id jsstring | AdapterKill adapter_id jsstring

datatype progress_msg = ReceivedBytes nat | IdleWaiting int | NoOutputPossiblyStuck int

datatype 'a promise = Pending | Fulfilled 'a | Rejected message

text \<open>\<open>interface CommandResult\<close> of server.ts.\<close>

record CommandResult =
  r_sessionId :: jsstring
  r_output :: jsstring
  r_exitCode :: "int option"
  r_success :: bool
  r_error :: "message option"

text \<open>
  The state that the callbacks of one call share: the session object, \<open>lastLine\<close> of
  \<open>wireHeuristics\<close>, \<open>proc\<close> and \<open>timeoutId\<close> of \<open>invoke\<close>, the thresholds passed to
  \<open>startIdleTimers\<close>, the promise that \<open>invoke\<close> returns, the calls made on the adapter,
  the progress messages sent, and whether the store still holds the session.
\<close>

record World =
  sess :: Session
  lastLine :: jsstring
  timers :: "(timer \<times> timer_kind) list"
  nextTimer :: timer
  proc :: "adapter_id option"
  timeoutId :: "timer option"
  waitingMsParam :: int
  stuckMsParam :: int
  promise :: "CommandResult promise"
  calls :: "adapter_call list"
  progress :: "progress_msg list"
  stored :: bool

definition armTimer :: "timer_kind \<Rightarrow> World \<Rightarrow> timer \<times> World" where
  "armTimer k w =
     (nextTimer w, w\<lparr>timers := timers w @ [(nextTimer w, k)], nextTimer := Suc (nextTimer w)\<rparr>)"

definition clearTimer :: "timer \<Rightarrow> World \<Rightarrow> World" where
  "clearTimer t w = w\<lparr>timers := filter (\<lambda>tk. fst tk \<noteq> t) (timers w)\<rparr>"

text \<open>A promise settles once: \<open>resolve\<close> and \<open>reject\<close> on a settled promise do nothing.\<close>

definition resolve :: "'a promise \<Rightarrow> 'a \<Rightarrow> 'a promise" where
  "resolve p v = (case p of Pending \<Rightarrow> Fulfilled v | _ \<Rightarrow> p)"

definition reject :: "'a promise \<Rightarrow> message \<Rightarrow> 'a promise" where
  "reject p m = (case p of Pending \<Rightarrow> Rejected m | _ \<Rightarrow> p)"

section \<open>The heuristics engine (sessions.ts)\<close>

text \<open>The callback that \<open>scheduleQuietComplete\<close> hands to \<open>setTimeout\<close>; every caller leaves \<open>onComplete\<close> undefined.\<close>

definition quietCallback :: "World \<Rightarrow> World" where
  "quietCallback w =
     (if status (sess w) \<noteq> Completed \<and> status (sess w) \<noteq> Error then
        (let w1 = w\<lparr>sess := (sess w)\<lparr>status := Completed\<rparr>\<rparr>
         in case idleTimer (sess w1) of
              Some t \<Rightarrow> clearTimer t w1
            | None \<Rightarrow> w1)
      else w)"

definition scheduleQuietComplete :: "World \<Rightarrow> World" where
  "scheduleQuietComplete w =
     (let w1 = (case quietTimer (sess w) of
                  Some t \<Rightarrow> clearTimer t w
                | None \<Rightarrow> w);
          (t, w2) = armTimer QuietComplete w1
      in w2\<lparr>sess := (sess w2)\<lparr>quietTimer := Some t\<rparr>\<rparr>)"

text \<open>
  The body of the loop over the lines of a chunk. \<open>looksFinished(line)\<close> is evaluated by
  the source and its result dropped, so it has no part here.
\<close>

definition onChunkLine :: "World \<Rightarrow> jsstring \<Rightarrow> World" where
  "onChunkLine w line =
     (if line \<noteq> [] \<and> isLikelySpinnerFrame (lastLine w) line then w
      else
        (let w1 = w\<lparr>lastLine := line\<rparr>;
             w2 = (if promptRe (sess w1) = None
                   then w1\<lparr>sess := (sess w1)\<lparr>promptRe := detectPrompt line\<rparr>\<rparr>
                   else w1)
         in case promptRe (sess w2) of
              Some re \<Rightarrow> if rx_test re line then scheduleQuietComplete w2 else w2
            | None \<Rightarrow> w2))"

text \<open>
  The trimming loop: while the total exceeds the cap and the buffer holds more than one
  chunk, shift the oldest chunk out and subtract its byte length.
\<close>

fun trimBuffer :: "int \<Rightarrow> jsstring list \<Rightarrow> int \<Rightarrow> jsstring list \<times> int" where
  "trimBuffer cap (x # y # ys) tot =
     (if tot > cap then trimBuffer cap (y # ys) (tot - int (byteLength x))
      else (x # y # ys, tot))"
| "trimBuffer cap b tot = (b, tot)"

definition onChunk :: "jsstring \<Rightarrow> int \<Rightarrow> World \<Rightarrow> World" where
  "onChunk text now w =
     (let w1 = foldl onChunkLine w (splitLines text);
          s = sess w1;
          b = buf s @ [text];
          tot = totalBytes s + int (byteLength text);
          cap = (if maxBufferBytes s \<noteq> 0 then maxBufferBytes s else 2000000);
          (b', tot') = trimBuffer cap b tot
      in w1\<lparr>sess := s\<lparr>buf := b', totalBytes := tot', lastByteAt := now\<rparr>\<rparr>)"

text \<open>\<open>onExit\<close> of \<open>wireHeuristics\<close>.\<close>

definition onExit :: "World \<Rightarrow> World" where
  "onExit w = scheduleQuietComplete w"

text \<open>The callback that \<open>startIdleTimers\<close> hands to \<open>setInterval\<close>.\<close>

definition idleCallback :: "int \<Rightarrow> World \<Rightarrow> World" where
  "idleCallback now w =
     (let idle = now - lastByteAt (sess w);
          w1 = (if status (sess w) = Running \<and> idle > waitingMsParam w
                then w\<lparr>sess := (sess w)\<lparr>status := Waiting\<rparr>,
                       progress := progress w @ [IdleWaiting (waitingMsParam w)]\<rparr>
                else w)
      in if (status (sess w1) = Waiting \<or> status (sess w1) = Running) \<and> idle > stuckMsParam w1
         then w1\<lparr>sess := (sess w1)\<lparr>status := PossiblyStuck\<rparr>,
                 progress := progress w1 @ [NoOutputPossiblyStuck (stuckMsParam w1)]\<rparr>
         else w1)"

definition startIdleTimers :: "World \<Rightarrow> World" where
  "startIdleTimers w =
     (let w1 = (case idleTimer (sess w) of
                  Some t \<Rightarrow> clearTimer t w
                | None \<Rightarrow> w);
          (t, w2) = armTimer IdlePoll w1
      in w2\<lparr>sess := (sess w2)\<lparr>idleTimer := Some t\<rparr>\<rparr>)"

section \<open>The tool \<open>terminal.run\<close> (server.ts)\<close>

text \<open>
  The arguments of the call that the model uses; an omitted one is \<open>None\<close> and takes the
  default of the destructuring. \<open>command\<close>, \<open>cwd\<close>, \<open>shell\<close> and \<open>env\<close> only reach
  \<open>maybeRunPTY\<close> and, through it, the host. \<open>quietMs\<close> is the delay of the quiet timer;
  delays are not modelled, an armed timer fires when the event loop says so.
\<close>

record RunCommandOptions =
  in_command :: jsstring
  in_timeoutMs :: "int option"
  in_waitingMs :: "int option"
  in_stuckMs :: "int option"
  in_maxBufferBytes :: "int option"

definition cleanup :: "World \<Rightarrow> World" where
  "cleanup w =
     (let w1 = (case quietTimer (sess w) of
                  Some t \<Rightarrow> (clearTimer t w)\<lparr>sess := (sess w)\<lparr>quietTimer := None\<rparr>\<rparr>
                | None \<Rightarrow> w);
          w2 = (case idleTimer (sess w1) of
                  Some t \<Rightarrow> (clearTimer t w1)\<lparr>sess := (sess w1)\<lparr>idleTimer := None\<rparr>\<rparr>
                | None \<Rightarrow> w1)
      in snd (armTimer StoreRemove w2))"

text \<open>
  \<open>maybeRunPTY\<close>: with \<open>USE_PTY=1\<close> it tries the pseudo-terminal first and falls back to
  the child process when that throws; what \<open>runCommand\<close> throws is thrown again as
  \<open>Failed to start command: ...\<close>. \<open>runPTY\<close> and \<open>runCommand\<close> call the host: each returns
  its process or throws, and that outcome is an input here. \<open>runCommand\<close> throws what
  \<open>spawn\<close> throws at once (\<open>spawn ENOTDIR\<close> for a working directory that is a file, say);
  a failure that \<open>spawn\<close> reports later, by the \<open>error\<close> event (\<open>ENOENT\<close>), is no outcome
  of the call: \<open>runCommand\<close> has returned its process by then and listens for no such
  event.
\<close>

definition maybeRunPTY ::
  "bool \<Rightarrow> message + adapter_id \<Rightarrow> message + adapter_id \<Rightarrow> message + adapter_id" where
  "maybeRunPTY usePty pty child =
     (case (usePty, pty) of
        (True, Inr ptyProcess) \<Rightarrow> Inr ptyProcess
      | _ \<Rightarrow>
          (case child of
             Inr c \<Rightarrow> Inr c
           | Inl errorMessage \<Rightarrow> Inl (FailedToStartCommand errorMessage)))"

text \<open>
  \<open>invoke\<close> up to the promise it returns; \<open>spawned\<close> is what \<open>maybeRunPTY\<close> gave. An
  \<open>async\<close> function that throws returns a rejected promise: that is the \<open>catch\<close>
  branch.
\<close>

definition invoke_run :: "RunCommandOptions \<Rightarrow> jsstring \<Rightarrow> int \<Rightarrow> message + adapter_id \<Rightarrow> World" where
  "invoke_run inp i now spawned =
     (let timeoutMs = (case in_timeoutMs inp of Some v \<Rightarrow> v | None \<Rightarrow> 30000);
          waitingMs = (case in_waitingMs inp of Some v \<Rightarrow> v | None \<Rightarrow> 10000);
          stuckMs = (case in_stuckMs inp of Some v \<Rightarrow> v | None \<Rightarrow> 45000);
          maxBuf = (case in_maxBufferBytes inp of Some v \<Rightarrow> v | None \<Rightarrow> 2 * 1024 * 1024);
          w0 = \<lparr>sess = (newSession i now)\<lparr>maxBufferBytes := maxBuf\<rparr>, lastLine = [],
                timers = [], nextTimer = 0, proc = None, timeoutId = None,
                waitingMsParam = waitingMs, stuckMsParam = stuckMs, promise = Pending,
                calls = [], progress = [], stored = True\<rparr>
      in case spawned of
           Inl errorMessage \<Rightarrow>
             (let w1 = cleanup w0
              in w1\<lparr>sess := (sess w1)\<lparr>status := Error, errorReason := Some errorMessage\<rparr>,
                    promise := Rejected (FailedToStartCommand errorMessage)\<rparr>)
         | Inr p \<Rightarrow>
             (let w1 = w0\<lparr>sess := (sess w0)\<lparr>adapter := Some p, status := Running\<rparr>,
                         proc := Some p\<rparr>;
                  w2 = (if maxBuf \<noteq> 0
                        then w1\<lparr>sess := (sess w1)\<lparr>maxBufferBytes := maxBuf\<rparr>\<rparr>
                        else w1);
                  w3 = startIdleTimers w2
              in if timeoutMs > 0
                 then (let (t, w4) = armTimer RunTimeout w3 in w4\<lparr>timeoutId := Some t\<rparr>)
                 else w3))"

text \<open>The callback of \<open>proc.onData\<close>.\<close>

definition onData :: "jsstring \<Rightarrow> int \<Rightarrow> World \<Rightarrow> World" where
  "onData chunk now w =
     (let w1 = onChunk chunk now w
      in w1\<lparr>progress := progress w1 @ [ReceivedBytes (length chunk)]\<rparr>)"

text \<open>The callback of the timeout of the whole command.\<close>

definition timeoutCallback :: "World \<Rightarrow> World" where
  "timeoutCallback w =
     (if status (sess w) = Running \<or> status (sess w) = Waiting then
        w\<lparr>sess := (sess w)\<lparr>status := Error, errorReason := Some CommandTimedOut\<rparr>,
          calls := calls w @ (case proc w of
                                Some p \<Rightarrow> [AdapterKill p (js ''SIGTERM'')]
                              | None \<Rightarrow> [])\<rparr>
      else w)"

text \<open>
  The two callbacks that \<open>invoke\<close> registers with \<open>proc.onExit\<close>, in the order of their
  registration, which is the order in which the adapter calls them.
\<close>

definition exitFirst :: "int option \<Rightarrow> jsstring option \<Rightarrow> World \<Rightarrow> World" where
  "exitFirst code signal w =
     (let w1 = (case timeoutId w of
                  Some t \<Rightarrow> clearTimer t w
                | None \<Rightarrow> w);
          w2 = w1\<lparr>sess := (sess w1)\<lparr>status := (if code = Some 0 then Completed else Error),
                                    exitCode := Some code, exitSignal := Some signal\<rparr>\<rparr>;
          w3 = cleanup w2
      in w3\<lparr>promise := resolve (promise w3)
               \<lparr>r_sessionId = sid (sess w3), r_output = concat (buf (sess w3)),
                r_exitCode = code, r_success = (code = Some 0),
                r_error = (if code \<noteq> Some 0 then Some (ProcessExited code None) else None)\<rparr>\<rparr>)"

definition exitSecond :: "int option \<Rightarrow> jsstring option \<Rightarrow> World \<Rightarrow> World" where
  "exitSecond code signal w =
     (let w1 = (case timeoutId w of
                  Some t \<Rightarrow> clearTimer t w
                | None \<Rightarrow> w);
          isError = (code \<noteq> Some 0 \<or> signal \<noteq> None);
          w2 = w1\<lparr>sess := (sess w1)\<lparr>status := (if isError then Error else Completed),
                                    exitCode := Some code, exitSignal := Some signal\<rparr>\<rparr>;
          reason = ProcessExited code (if signal = Some [] then None else signal);
          w3 = (if isError
                then w2\<lparr>sess := (sess w2)\<lparr>errorReason := Some reason\<rparr>,
                        promise := reject (promise w2) reason\<rparr>
                else w2\<lparr>promise := resolve (promise w2)
                        \<lparr>r_sessionId = sid (sess w2), r_output = concat (buf (sess w2)),
                         r_exitCode = code, r_success = True, r_error = None\<rparr>\<rparr>)
      in cleanup w3)"

definition procExit :: "int option \<Rightarrow> jsstring option \<Rightarrow> World \<Rightarrow> World" where
  "procExit code signal w = exitSecond code signal (exitFirst code signal w)"

text \<open>The event loop runs the callback of an armed timer; \<open>now\<close> is \<open>Date.now()\<close> at that time.\<close>

definition fire :: "timer \<Rightarrow> int \<Rightarrow> World \<Rightarrow> World" where
  "fire t now w =
     (case map_of (timers w) t of
        None \<Rightarrow> w
      | Some QuietComplete \<Rightarrow> quietCallback (clearTimer t w)
      | Some IdlePoll \<Rightarrow> idleCallback now w
      | Some RunTimeout \<Rightarrow> timeoutCallback (clearTimer t w)
      | Some StoreRemove \<Rightarrow> (clearTimer t w)\<lparr>stored := False\<rparr>)"

text \<open>
  What can happen to a call after \<open>invoke\<close> has returned its promise: the adapter
  delivers a chunk, the adapter reports the exit, a timer fires. \<open>HeuristicsExit\<close> is a
  call of \<open>onExit\<close> of \<open>wireHeuristics\<close>; \<open>invoke\<close> itself never makes it.
\<close>

datatype event =
    Data jsstring int
  | Exit "int option" "jsstring option"
  | Fire timer int
  | HeuristicsExit

fun step :: "World \<Rightarrow> event \<Rightarrow> World" where
  "step w (Data chunk now) = onData chunk now w"
| "step w (Exit code signal) = procExit code signal w"
| "step w (Fire t now) = fire t now w"
| "step w HeuristicsExit = onExit w"

definition run_events :: "World \<Rightarrow> event list \<Rightarrow> World" where
  "run_events w evs = foldl step w evs"

section \<open>The tools \<open>terminal.write\<close> and \<open>terminal.signal\<close> (server.ts)\<close>

text \<open>
  \<open>SessionStore\<close> maps ids to sessions. A tool returns what \<open>invoke\<close> returns
  (\<open>Inr ()\<close> for \<open>{ success: true }\<close>) or the message of the error it throws, together
  with the calls it made on the adapter. An omitted \<open>signal\<close> is \<open>None\<close>.
\<close>

text \<open>
  \<open>kill\<close> of the adapters that \<open>maybeRunPTY\<close> builds; \<open>None\<close> when the call returns, the
  message when it throws. The adapter of a pseudo-terminal drops the signal and calls
  \<open>ptyProcess.kill()\<close>; the adapter of a child process calls
  \<open>child.kill(signal || 'SIGTERM')\<close>; both log and throw again what that call throws.
  The two calls are the host's, and inputs here: \<open>child.kill\<close> throws for a signal name
  that the host does not know.
\<close>

datatype adapter_kind = PtyAdapter | ChildAdapter

definition adapterKill ::
  "adapter_kind \<Rightarrow> message option \<Rightarrow> (jsstring \<Rightarrow> message option) \<Rightarrow> jsstring \<Rightarrow> message option" where
  "adapterKill kind ptyKill childKill signal =
     (case kind of
        PtyAdapter \<Rightarrow> ptyKill
      | ChildAdapter \<Rightarrow> childKill (if signal = [] then js ''SIGTERM'' else signal))"

type_synonym store = "(jsstring \<times> Session) list"

definition store_get :: "store \<Rightarrow> jsstring \<Rightarrow> Session option" where
  "store_get st i = map_of st i"

text \<open>The store as one call of \<open>terminal.run\<close> leaves it: its session, until \<open>store.remove\<close> has run.\<close>

definition store_of :: "World \<Rightarrow> store" where
  "store_of w = (if stored w then [(sid (sess w), sess w)] else [])"

definition invoke_write :: "store \<Rightarrow> jsstring \<Rightarrow> jsstring \<Rightarrow> (message + unit) \<times> adapter_call list" where
  "invoke_write st sessionId data =
     (case store_get st sessionId of
        None \<Rightarrow> (Inl SessionNotFoundOrNotActive, [])
      | Some session \<Rightarrow>
          (case adapter session of
             None \<Rightarrow> (Inl SessionNotFoundOrNotActive, [])
           | Some a \<Rightarrow> (Inr (), [AdapterWrite a data])))"

text \<open>
  The signal tool; \<open>kill a\<close> is the \<open>kill\<close> method of the adapter \<open>a\<close>. When it throws,
  the tool throws the same error.
\<close>

definition invoke_signal ::
  "(adapter_id \<Rightarrow> jsstring \<Rightarrow> message option) \<Rightarrow> store \<Rightarrow> jsstring \<Rightarrow> jsstring option \<Rightarrow>
     (message + unit) \<times> adapter_call list" where
  "invoke_signal kill st sessionId sig =
     (let signal = (case sig of Some v \<Rightarrow> v | None \<Rightarrow> js ''SIGTERM'')
      in case store_get st sessionId of
           None \<Rightarrow> (Inl SessionNotFoundOrNotActive, [])
         | Some session \<Rightarrow>
             (case adapter session of
                None \<Rightarrow> (Inl SessionNotFoundOrNotActive, [])
              | Some a \<Rightarrow>
                  (case kill a signal of
                     None \<Rightarrow> (Inr (), [AdapterKill a signal])
                   | Some e \<Rightarrow> (Inl e, [AdapterKill a signal]))))"

section \<open>JSON-RPC dispatch (mcp/jsonrpc.ts)\<close>

text \<open>
  A number as \<open>JSON.parse\<close> yields it, a double: \<open>Finite m e\<close> is m times 2 to the
  power e, for integers m and e; a literal too large for a double (\<open>1e400\<close>) is read as an
  infinity, and \<open>-0\<close> as the negative zero.
\<close>

datatype jsnumber = Finite int int | NegativeZero | PlusInfinity | MinusInfinity

definition isZero :: "jsnumber \<Rightarrow> bool" where
  "isZero n = (case n of Finite m e \<Rightarrow> m = 0 | NegativeZero \<Rightarrow> True | _ \<Rightarrow> False)"

text \<open>
  JSON values; an object keeps its members in the order of the text, and a later member
  overrides an earlier one of the same name. \<open>JSON.parse\<close> is the host's: \<open>dispatch\<close>
  takes its outcome on the raw line, the value or the syntax error thrown.
\<close>

datatype json =
    JNull
  | JBool bool
  | JNum jsnumber
  | JStr jsstring
  | JArr "json list"
  | JObj "(jsstring \<times> json) list"

datatype parse_result = SyntaxError | Parsed json

text \<open>\<open>msg.name\<close>: \<open>None\<close> is \<open>undefined\<close>.\<close>

definition getProp :: "json \<Rightarrow> jsstring \<Rightarrow> json option" where
  "getProp v name = (case v of JObj kvs \<Rightarrow> map_of (rev kvs) name | _ \<Rightarrow> None)"

definition falsy :: "json \<Rightarrow> bool" where
  "falsy v =
     (case v of
        JNull \<Rightarrow> True
      | JBool b \<Rightarrow> \<not> b
      | JNum n \<Rightarrow> isZero n
      | JStr t \<Rightarrow> t = []
      | _ \<Rightarrow> False)"

text \<open>
  A handler gets \<open>msg.params\<close> and \<open>msg.id\<close> and returns a value (or nothing) or throws.
  \<open>handlers\<close>, a \<open>Map\<close> in the source, is the list of the registered methods.
\<close>

type_synonym handler = "json option \<Rightarrow> json option \<Rightarrow> message + json option"

text \<open>
  A response is the object that \<open>dispatch\<close> hands to \<open>JSON.stringify\<close>: its \<open>id\<close>, then
  the result, or the code and message of the error. Writing it out is the host's
  (\<open>JSON.stringify\<close> writes a number that is not finite as \<open>null\<close>).
\<close>

datatype response =
    ResultResponse json json
  | ErrorResponse json int message

definition dispatch :: "(jsstring \<times> handler) list \<Rightarrow> parse_result \<Rightarrow> response option" where
  "dispatch handlers parsed =
     (case parsed of
        SyntaxError \<Rightarrow> None
      | Parsed msg \<Rightarrow>
          if falsy msg \<or> getProp msg (js ''jsonrpc'') \<noteq> Some (JStr (js ''2.0'')) then None
          else
            (case getProp msg (js ''method'') of
               Some (JStr method) \<Rightarrow>
                 (case map_of handlers method of
                    None \<Rightarrow>
                      (case getProp msg (js ''id'') of
                         Some i \<Rightarrow> Some (ErrorResponse i (- 32601) (MethodNotFound method))
                       | None \<Rightarrow> None)
                  | Some h \<Rightarrow>
                      (case h (getProp msg (js ''params'')) (getProp msg (js ''id'')) of
                         Inr res \<Rightarrow>
                           (case getProp msg (js ''id'') of
                              Some i \<Rightarrow> Some (ResultResponse i (case res of Some v \<Rightarrow> v | None \<Rightarrow> JNull))
                            | None \<Rightarrow> None)
                       | Inl e \<Rightarrow>
                           (case getProp msg (js ''id'') of
                              Some i \<Rightarrow> Some (ErrorResponse i (- 32000) e)
                            | None \<Rightarrow> None)))
             | _ \<Rightarrow> None))"

section \<open>Observations used by the properties\<close>

text \<open>The handles of the armed timers that run a given callback.\<close>

definition armed :: "timer_kind \<Rightarrow> World \<Rightarrow> timer list" where
  "armed k w = map fst (filter (\<lambda>tk. snd tk = k) (timers w))"

text \<open>
  What the loop over the lines of a chunk never touches: every field of the session but
  \<open>promptRe\<close> and \<open>quietTimer\<close>, and the shared state but \<open>lastLine\<close> and the timers.
\<close>

definition core ::
  "World \<Rightarrow> (jsstring \<times> jsstring list \<times> int \<times> SessionStatus \<times> message option \<times> timer option \<times>
     int option option \<times> jsstring option option \<times> int \<times> int \<times> adapter_id option) \<times>
    (adapter_id option \<times> timer option \<times> int \<times> int \<times> CommandResult promise \<times>
     adapter_call list \<times> progress_msg list \<times> bool)" where
  "core w =
     ((sid (sess w), buf (sess w), lastByteAt (sess w), status (sess w), errorReason (sess w),
       idleTimer (sess w), exitCode (sess w), exitSignal (sess w), totalBytes (sess w),
       maxBufferBytes (sess w), adapter (sess w)),
      (proc w, timeoutId w, waitingMsParam w, stuckMsParam w, promise w, calls w, progress w,
       stored w))"

text \<open>
  The timer fields of the session account for the armed timers: every armed handle is
  older than the next one to be issued, an armed quiet timer is the one in \<open>quietTimer\<close>
  and an armed idle timer is the one in \<open>idleTimer\<close>.
\<close>

definition timers_ok :: "World \<Rightarrow> bool" where
  "timers_ok w =
     (\<forall>tk \<in> set (timers w).
        fst tk < nextTimer w \<and>
        (snd tk = QuietComplete \<longrightarrow> quietTimer (sess w) = Some (fst tk)) \<and>
        (snd tk = IdlePoll \<longrightarrow> idleTimer (sess w) = Some (fst tk)))"

text \<open>The events of a list among which the adapter does not report the exit.\<close>

fun no_exit :: "event list \<Rightarrow> bool" where
  "no_exit [] = True"
| "no_exit (Exit code signal # evs) = False"
| "no_exit (ev # evs) = no_exit evs"

text \<open>The cap that \<open>onChunk\<close> trims to: \<open>sess.maxBufferBytes || 2_000_000\<close>.\<close>

definition bufferCap :: "Session \<Rightarrow> int" where
  "bufferCap s = (if maxBufferBytes s \<noteq> 0 then maxBufferBytes s else 2000000)"

definition bufferBytes :: "Session \<Rightarrow> int" where
  "bufferBytes s = int (sum_list (map byteLength (buf s)))"


text \<open>The arguments of a call that gives only the command.\<close>

abbreviation only_command :: "jsstring \<Rightarrow> RunCommandOptions" where
  "only_command c \<equiv>
     \<lparr>in_command = c, in_timeoutMs = None, in_waitingMs = None, in_stuckMs = None,
      in_maxBufferBytes = None\<rparr>"

section \<open>What each callback leaves alone\<close>

lemma clearTimer_fields [simp]:
  "sess (clearTimer t w) = sess w"
  "lastLine (clearTimer t w) = lastLine w"
  "timers (clearTimer t w) = filter (\<lambda>tk. fst tk \<noteq> t) (timers w)"
  "nextTimer (clearTimer t w) = nextTimer w"
  "proc (clearTimer t w) = proc w"
  "timeoutId (clearTimer t w) = timeoutId w"
  "waitingMsParam (clearTimer t w) = waitingMsParam w"
  "stuckMsParam (clearTimer t w) = stuckMsParam w"
  "promise (clearTimer t w) = promise w"
  "calls (clearTimer t w) = calls w"
  "progress (clearTimer t w) = progress w"
  "stored (clearTimer t w) = stored w"
  by (simp_all add: clearTimer_def)

lemma armTimer_fields [simp]:
  "fst (armTimer k w) = nextTimer w"
  "sess (snd (armTimer k w)) = sess w"
  "lastLine (snd (armTimer k w)) = lastLine w"
  "timers (snd (armTimer k w)) = timers w @ [(nextTimer w, k)]"
  "nextTimer (snd (armTimer k w)) = Suc (nextTimer w)"
  "proc (snd (armTimer k w)) = proc w"
  "timeoutId (snd (armTimer k w)) = timeoutId w"
  "waitingMsParam (snd (armTimer k w)) = waitingMsParam w"
  "stuckMsParam (snd (armTimer k w)) = stuckMsParam w"
  "promise (snd (armTimer k w)) = promise w"
  "calls (snd (armTimer k w)) = calls w"
  "progress (snd (armTimer k w)) = progress w"
  "stored (snd (armTimer k w)) = stored w"
  by (simp_all add: armTimer_def)

lemma scheduleQuietComplete_fields [simp]:
  "sess (scheduleQuietComplete w) = (sess w)\<lparr>quietTimer := Some (nextTimer w)\<rparr>"
  "lastLine (scheduleQuietComplete w) = lastLine w"
  "timers (scheduleQuietComplete w) =
     (case quietTimer (sess w) of
        Some t \<Rightarrow> filter (\<lambda>tk. fst tk \<noteq> t) (timers w)
      | None \<Rightarrow> timers w) @ [(nextTimer w, QuietComplete)]"
  "nextTimer (scheduleQuietComplete w) = Suc (nextTimer w)"
  "proc (scheduleQuietComplete w) = proc w"
  "timeoutId (scheduleQuietComplete w) = timeoutId w"
  "waitingMsParam (scheduleQuietComplete w) = waitingMsParam w"
  "stuckMsParam (scheduleQuietComplete w) = stuckMsParam w"
  "promise (scheduleQuietComplete w) = promise w"
  "calls (scheduleQuietComplete w) = calls w"
  "progress (scheduleQuietComplete w) = progress w"
  "stored (scheduleQuietComplete w) = stored w"
  by (simp_all add: scheduleQuietComplete_def split_beta Let_def split: option.splits)



lemma onChunkLine_shape:
  "onChunkLine w l = w \<or>
   (\<exists>pr. onChunkLine w l = w\<lparr>lastLine := l, sess := (sess w)\<lparr>promptRe := pr\<rparr>\<rparr>) \<or>
   (\<exists>pr. onChunkLine w l = scheduleQuietComplete (w\<lparr>lastLine := l, sess := (sess w)\<lparr>promptRe := pr\<rparr>\<rparr>))"
proof (cases "l \<noteq> [] \<and> isLikelySpinnerFrame (lastLine w) l")
  case True
  then show ?thesis by (simp add: onChunkLine_def)
next
  case False
  define pr where "pr = (if promptRe (sess w) = None then detectPrompt l else promptRe (sess w))"
  define w2 where "w2 = w\<lparr>lastLine := l, sess := (sess w)\<lparr>promptRe := pr\<rparr>\<rparr>"
  have pr2: "promptRe (sess w2) = pr" by (simp add: w2_def)
  have w2': "(if promptRe (sess (w\<lparr>lastLine := l\<rparr>)) = None
              then (w\<lparr>lastLine := l\<rparr>)\<lparr>sess := (sess (w\<lparr>lastLine := l\<rparr>))\<lparr>promptRe := detectPrompt l\<rparr>\<rparr>
              else w\<lparr>lastLine := l\<rparr>) = w2"
    by (simp add: w2_def pr_def)
  have eq: "onChunkLine w l =
      (case promptRe (sess w2) of
         Some re \<Rightarrow> if rx_test re l then scheduleQuietComplete w2 else w2
       | None \<Rightarrow> w2)"
    unfolding onChunkLine_def Let_def using False by (simp only: if_False w2')
  show ?thesis
  proof (cases pr)
    case None
    with eq pr2 have "onChunkLine w l = w2" by simp
    then show ?thesis unfolding w2_def by blast
  next
    case (Some re)
    show ?thesis
    proof (cases "rx_test re l")
      case True
      with eq pr2 Some have "onChunkLine w l = scheduleQuietComplete w2" by simp
      then show ?thesis unfolding w2_def by blast
    next
      case False
      with eq pr2 Some have "onChunkLine w l = w2" by simp
      then show ?thesis unfolding w2_def by blast
    qed
  qed
qed


lemma core_scheduleQuietComplete [simp]: "core (scheduleQuietComplete w) = core w"
  by (simp add: core_def)

lemma core_onChunkLine [simp]: "core (onChunkLine w l) = core w"
  using onChunkLine_shape [of w l] by (auto simp: core_def)

lemma core_lines [simp]: "core (foldl onChunkLine w ls) = core w"
  by (induction ls arbitrary: w) simp_all

lemma timers_ok_scheduleQuietComplete: "timers_ok w \<Longrightarrow> timers_ok (scheduleQuietComplete w)"
  by (cases "quietTimer (sess w)") (auto simp: timers_ok_def)

lemma timers_ok_onChunkLine: "timers_ok w \<Longrightarrow> timers_ok (onChunkLine w l)"
proof -
  assume ok: "timers_ok w"
  have upd: "timers_ok (w\<lparr>lastLine := l, sess := (sess w)\<lparr>promptRe := pr\<rparr>\<rparr>)" for pr
    using ok by (simp add: timers_ok_def)
  from onChunkLine_shape [of w l] show ?thesis
    using ok upd timers_ok_scheduleQuietComplete by (elim disjE exE) simp_all
qed

lemma timers_ok_lines: "timers_ok w \<Longrightarrow> timers_ok (foldl onChunkLine w ls)"
  by (induction ls arbitrary: w) (simp_all add: timers_ok_onChunkLine)


lemma onChunk_eq:
  "onChunk text now w =
     (let w1 = foldl onChunkLine w (splitLines text);
          r = trimBuffer (bufferCap (sess w1)) (buf (sess w1) @ [text])
                (totalBytes (sess w1) + int (byteLength text))
      in w1\<lparr>sess := (sess w1)\<lparr>buf := fst r, totalBytes := snd r, lastByteAt := now\<rparr>\<rparr>)"
  by (simp add: onChunk_def Let_def split_beta bufferCap_def)

lemma timers_ok_onChunk: "timers_ok w \<Longrightarrow> timers_ok (onChunk text now w)"
proof -
  assume "timers_ok w"
  then have "timers_ok (foldl onChunkLine w (splitLines text))" by (rule timers_ok_lines)
  then show ?thesis by (simp add: onChunk_eq Let_def timers_ok_def)
qed

lemma timers_ok_onData: "timers_ok w \<Longrightarrow> timers_ok (onData chunk now w)"
  using timers_ok_onChunk [of w chunk now] by (simp add: onData_def Let_def timers_ok_def)

lemma timers_ok_clearTimer: "timers_ok w \<Longrightarrow> timers_ok (clearTimer t w)"
  by (simp add: timers_ok_def)

lemma timers_ok_quietCallback: "timers_ok w \<Longrightarrow> timers_ok (quietCallback w)"
  by (cases "idleTimer (sess w)") (simp_all add: quietCallback_def timers_ok_def Let_def)

lemma timers_ok_idleCallback: "timers_ok w \<Longrightarrow> timers_ok (idleCallback now w)"
  by (simp add: idleCallback_def timers_ok_def Let_def)

lemma timers_ok_timeoutCallback: "timers_ok w \<Longrightarrow> timers_ok (timeoutCallback w)"
  by (simp add: timeoutCallback_def timers_ok_def)

lemma timers_ok_fire: "timers_ok w \<Longrightarrow> timers_ok (fire t now w)"
proof (cases "map_of (timers w) t")
  case None
  assume "timers_ok w"
  with None show ?thesis by (simp add: fire_def)
next
  case (Some k)
  assume ok: "timers_ok w"
  then have c: "timers_ok (clearTimer t w)" by (rule timers_ok_clearTimer)
  show ?thesis
  proof (cases k)
    case QuietComplete
    with Some c show ?thesis by (simp add: fire_def timers_ok_quietCallback)
  next
    case IdlePoll
    with Some ok show ?thesis by (simp add: fire_def timers_ok_idleCallback)
  next
    case RunTimeout
    with Some c show ?thesis by (simp add: fire_def timers_ok_timeoutCallback)
  next
    case StoreRemove
    have "timers_ok ((clearTimer t w)\<lparr>stored := False\<rparr>) = timers_ok (clearTimer t w)"
      by (simp add: timers_ok_def)
    with Some c StoreRemove show ?thesis by (simp add: fire_def)
  qed
qed

lemma cleanup_fields [simp]:
  "sess (cleanup w) = (sess w)\<lparr>quietTimer := None, idleTimer := None\<rparr>"
  "timers (cleanup w) =
     filter (\<lambda>tk. Some (fst tk) \<noteq> quietTimer (sess w) \<and> Some (fst tk) \<noteq> idleTimer (sess w)) (timers w)
     @ [(nextTimer w, StoreRemove)]"
  "nextTimer (cleanup w) = Suc (nextTimer w)"
  "lastLine (cleanup w) = lastLine w"
  "proc (cleanup w) = proc w"
  "timeoutId (cleanup w) = timeoutId w"
  "waitingMsParam (cleanup w) = waitingMsParam w"
  "stuckMsParam (cleanup w) = stuckMsParam w"
  "promise (cleanup w) = promise w"
  "calls (cleanup w) = calls w"
  "progress (cleanup w) = progress w"
  "stored (cleanup w) = stored w"
  by (cases "quietTimer (sess w)"; cases "idleTimer (sess w)";
      simp add: cleanup_def Let_def conj_commute cong: filter_cong)+


lemma timers_ok_cleanup: "timers_ok w \<Longrightarrow> timers_ok (cleanup w)"
  by (auto simp: timers_ok_def)

lemma armed_cleanup:
  "timers_ok w \<Longrightarrow> armed QuietComplete (cleanup w) = [] \<and> armed IdlePoll (cleanup w) = []"
  by (auto simp: timers_ok_def armed_def filter_empty_conv)

lemma exitFirst_fields [simp]:
  "sess (exitFirst code signal w) =
     (sess w)\<lparr>status := (if code = Some 0 then Completed else Error), exitCode := Some code,
              exitSignal := Some signal, quietTimer := None, idleTimer := None\<rparr>"
  "nextTimer (exitFirst code signal w) = Suc (nextTimer w)"
  "lastLine (exitFirst code signal w) = lastLine w"
  "proc (exitFirst code signal w) = proc w"
  "timeoutId (exitFirst code signal w) = timeoutId w"
  "waitingMsParam (exitFirst code signal w) = waitingMsParam w"
  "stuckMsParam (exitFirst code signal w) = stuckMsParam w"
  "calls (exitFirst code signal w) = calls w"
  "progress (exitFirst code signal w) = progress w"
  "stored (exitFirst code signal w) = stored w"
  "promise (exitFirst code signal w) =
     resolve (promise w)
       \<lparr>r_sessionId = sid (sess w), r_output = concat (buf (sess w)), r_exitCode = code,
        r_success = (code = Some 0),
        r_error = (if code \<noteq> Some 0 then Some (ProcessExited code None) else None)\<rparr>"
  by (cases "timeoutId w"; simp add: exitFirst_def Let_def)+

lemma exitSecond_fields [simp]:
  "status (sess (exitSecond code signal w)) =
     (if code \<noteq> Some 0 \<or> signal \<noteq> None then Error else Completed)"
  "exitCode (sess (exitSecond code signal w)) = Some code"
  "exitSignal (sess (exitSecond code signal w)) = Some signal"
  "quietTimer (sess (exitSecond code signal w)) = None"
  "idleTimer (sess (exitSecond code signal w)) = None"
  "sid (sess (exitSecond code signal w)) = sid (sess w)"
  "buf (sess (exitSecond code signal w)) = buf (sess w)"
  "totalBytes (sess (exitSecond code signal w)) = totalBytes (sess w)"
  "maxBufferBytes (sess (exitSecond code signal w)) = maxBufferBytes (sess w)"
  "adapter (sess (exitSecond code signal w)) = adapter (sess w)"
  "lastByteAt (sess (exitSecond code signal w)) = lastByteAt (sess w)"
  "nextTimer (exitSecond code signal w) = Suc (nextTimer w)"
  "proc (exitSecond code signal w) = proc w"
  "timeoutId (exitSecond code signal w) = timeoutId w"
  "calls (exitSecond code signal w) = calls w"
  "progress (exitSecond code signal w) = progress w"
  "stored (exitSecond code signal w) = stored w"
  by (cases "timeoutId w"; simp add: exitSecond_def Let_def)+

lemma promise_exitSecond:
  "promise w \<noteq> Pending \<Longrightarrow> promise (exitSecond code signal w) = promise w"
  by (cases "timeoutId w"; cases "promise w"; simp add: exitSecond_def Let_def resolve_def reject_def)

lemma timers_ok_exitFirst: "timers_ok w \<Longrightarrow> timers_ok (exitFirst code signal w)"
proof -
  assume ok: "timers_ok w"
  define w1 where "w1 = (case timeoutId w of Some t \<Rightarrow> clearTimer t w | None \<Rightarrow> w)"
  define w2 where "w2 = w1\<lparr>sess := (sess w1)\<lparr>status := (if code = Some 0 then Completed else Error),
                                    exitCode := Some code, exitSignal := Some signal\<rparr>\<rparr>"
  have "timers_ok w1" using ok by (cases "timeoutId w") (simp_all add: w1_def timers_ok_clearTimer)
  then have "timers_ok w2" by (simp add: w2_def timers_ok_def)
  then have c: "timers_ok (cleanup w2)" by (rule timers_ok_cleanup)
  have "timers_ok (exitFirst code signal w) = timers_ok (cleanup w2)"
    unfolding exitFirst_def Let_def w2_def w1_def by (simp add: timers_ok_def)
  with c show ?thesis by simp
qed


lemma exitSecond_cleanup:
  "\<exists>w3. exitSecond code signal w = cleanup w3 \<and> (timers_ok w \<longrightarrow> timers_ok w3)"
proof -
  define w1 where "w1 = (case timeoutId w of Some t \<Rightarrow> clearTimer t w | None \<Rightarrow> w)"
  define isError where "isError = (code \<noteq> Some 0 \<or> signal \<noteq> None)"
  define w2 where "w2 = w1\<lparr>sess := (sess w1)\<lparr>status := (if isError then Error else Completed),
                                    exitCode := Some code, exitSignal := Some signal\<rparr>\<rparr>"
  define reason where "reason = ProcessExited code (if signal = Some [] then None else signal)"
  define w3 where "w3 = (if isError
                then w2\<lparr>sess := (sess w2)\<lparr>errorReason := Some reason\<rparr>,
                        promise := reject (promise w2) reason\<rparr>
                else w2\<lparr>promise := resolve (promise w2)
                        \<lparr>r_sessionId = sid (sess w2), r_output = concat (buf (sess w2)),
                         r_exitCode = code, r_success = True, r_error = None\<rparr>\<rparr>)"
  have e: "exitSecond code signal w = cleanup w3"
    unfolding exitSecond_def Let_def w3_def reason_def w2_def isError_def w1_def ..
  have "timers_ok w3" if ok: "timers_ok w"
  proof -
    have "timers_ok w1" using ok by (cases "timeoutId w") (simp_all add: w1_def timers_ok_clearTimer)
    then have "timers_ok w2" by (simp add: w2_def timers_ok_def)
    then show ?thesis by (simp add: w3_def timers_ok_def)
  qed
  with e show ?thesis by blast
qed

lemma timers_ok_exitSecond: "timers_ok w \<Longrightarrow> timers_ok (exitSecond code signal w)"
  using exitSecond_cleanup [of code signal w] timers_ok_cleanup by auto

lemma armed_exitSecond:
  "timers_ok w \<Longrightarrow>
   armed QuietComplete (exitSecond code signal w) = [] \<and> armed IdlePoll (exitSecond code signal w) = []"
  using exitSecond_cleanup [of code signal w] armed_cleanup by auto

lemma timers_ok_procExit: "timers_ok w \<Longrightarrow> timers_ok (procExit code signal w)"
  by (simp add: procExit_def timers_ok_exitFirst timers_ok_exitSecond)

lemma armed_procExit:
  "timers_ok w \<Longrightarrow>
   armed QuietComplete (procExit code signal w) = [] \<and> armed IdlePoll (procExit code signal w) = []"
  by (simp add: procExit_def timers_ok_exitFirst armed_exitSecond)

lemma timers_ok_step: "timers_ok w \<Longrightarrow> timers_ok (step w ev)"
  by (cases ev)
    (simp_all add: timers_ok_onData timers_ok_procExit timers_ok_fire onExit_def
      timers_ok_scheduleQuietComplete)

lemma timers_ok_run_events: "timers_ok w \<Longrightarrow> timers_ok (run_events w evs)"
  unfolding run_events_def by (induction evs arbitrary: w) (simp_all add: timers_ok_step)

lemma timers_ok_invoke_run: "timers_ok (invoke_run inp i now spawned)"
  by (cases spawned)
    (auto simp: invoke_run_def Let_def timers_ok_def newSession_def startIdleTimers_def
      armTimer_def split_beta)

lemma timers_ok_reachable: "timers_ok (run_events (invoke_run inp i now spawned) evs)"
  by (rule timers_ok_run_events) (rule timers_ok_invoke_run)


lemma onChunk_fields [simp]:
  "sid (sess (onChunk text now w)) = sid (sess w)"
  "status (sess (onChunk text now w)) = status (sess w)"
  "adapter (sess (onChunk text now w)) = adapter (sess w)"
  "maxBufferBytes (sess (onChunk text now w)) = maxBufferBytes (sess w)"
  "lastByteAt (sess (onChunk text now w)) = now"
  "idleTimer (sess (onChunk text now w)) = idleTimer (sess w)"
  "errorReason (sess (onChunk text now w)) = errorReason (sess w)"
  "exitCode (sess (onChunk text now w)) = exitCode (sess w)"
  "exitSignal (sess (onChunk text now w)) = exitSignal (sess w)"
  "proc (onChunk text now w) = proc w"
  "timeoutId (onChunk text now w) = timeoutId w"
  "waitingMsParam (onChunk text now w) = waitingMsParam w"
  "stuckMsParam (onChunk text now w) = stuckMsParam w"
  "promise (onChunk text now w) = promise w"
  "calls (onChunk text now w) = calls w"
  "progress (onChunk text now w) = progress w"
  "stored (onChunk text now w) = stored w"
  using core_lines [of w "splitLines text"] by (simp_all add: onChunk_eq Let_def core_def)

lemma onChunk_buffer:
  "buf (sess (onChunk text now w)) =
     fst (trimBuffer (bufferCap (sess w)) (buf (sess w) @ [text])
            (totalBytes (sess w) + int (byteLength text)))"
  "totalBytes (sess (onChunk text now w)) =
     snd (trimBuffer (bufferCap (sess w)) (buf (sess w) @ [text])
            (totalBytes (sess w) + int (byteLength text)))"
  using core_lines [of w "splitLines text"]
  by (simp_all add: onChunk_eq Let_def core_def bufferCap_def)

lemma fire_keeps [simp]:
  "sid (sess (fire t now w)) = sid (sess w)"
  "adapter (sess (fire t now w)) = adapter (sess w)"
  "buf (sess (fire t now w)) = buf (sess w)"
  "totalBytes (sess (fire t now w)) = totalBytes (sess w)"
  "maxBufferBytes (sess (fire t now w)) = maxBufferBytes (sess w)"
  "proc (fire t now w) = proc w"
  "promise (fire t now w) = promise w"
proof -
  have q: "sid (sess (quietCallback v)) = sid (sess v) \<and> adapter (sess (quietCallback v)) = adapter (sess v) \<and>
      buf (sess (quietCallback v)) = buf (sess v) \<and> totalBytes (sess (quietCallback v)) = totalBytes (sess v) \<and>
      maxBufferBytes (sess (quietCallback v)) = maxBufferBytes (sess v) \<and>
      proc (quietCallback v) = proc v \<and> promise (quietCallback v) = promise v" for v
    by (cases "idleTimer (sess v)") (simp_all add: quietCallback_def Let_def)
  have i: "sid (sess (idleCallback now v)) = sid (sess v) \<and> adapter (sess (idleCallback now v)) = adapter (sess v) \<and>
      buf (sess (idleCallback now v)) = buf (sess v) \<and> totalBytes (sess (idleCallback now v)) = totalBytes (sess v) \<and>
      maxBufferBytes (sess (idleCallback now v)) = maxBufferBytes (sess v) \<and>
      proc (idleCallback now v) = proc v \<and> promise (idleCallback now v) = promise v" for v
    by (simp add: idleCallback_def Let_def)
  have c: "sid (sess (timeoutCallback v)) = sid (sess v) \<and> adapter (sess (timeoutCallback v)) = adapter (sess v) \<and>
      buf (sess (timeoutCallback v)) = buf (sess v) \<and> totalBytes (sess (timeoutCallback v)) = totalBytes (sess v) \<and>
      maxBufferBytes (sess (timeoutCallback v)) = maxBufferBytes (sess v) \<and>
      proc (timeoutCallback v) = proc v \<and> promise (timeoutCallback v) = promise v" for v
    by (simp add: timeoutCallback_def)
  have all: "sid (sess (fire t now w)) = sid (sess w) \<and> adapter (sess (fire t now w)) = adapter (sess w) \<and>
      buf (sess (fire t now w)) = buf (sess w) \<and> totalBytes (sess (fire t now w)) = totalBytes (sess w) \<and>
      maxBufferBytes (sess (fire t now w)) = maxBufferBytes (sess w) \<and>
      proc (fire t now w) = proc w \<and> promise (fire t now w) = promise w"
  proof (cases "map_of (timers w) t")
    case None
    then show ?thesis by (simp add: fire_def)
  next
    case (Some k)
    then show ?thesis using q [of "clearTimer t w"] i [of w] c [of "clearTimer t w"]
      by (cases k) (simp_all add: fire_def)
  qed
  from all show "sid (sess (fire t now w)) = sid (sess w)" by simp
  from all show "adapter (sess (fire t now w)) = adapter (sess w)" by simp
  from all show "buf (sess (fire t now w)) = buf (sess w)" by simp
  from all show "totalBytes (sess (fire t now w)) = totalBytes (sess w)" by simp
  from all show "maxBufferBytes (sess (fire t now w)) = maxBufferBytes (sess w)" by simp
  from all show "proc (fire t now w) = proc w" by simp
  from all show "promise (fire t now w) = promise w" by simp
qed

lemma step_keeps [simp]:
  "sid (sess (step w ev)) = sid (sess w)"
  "adapter (sess (step w ev)) = adapter (sess w)"
  "maxBufferBytes (sess (step w ev)) = maxBufferBytes (sess w)"
  "proc (step w ev) = proc w"
  by (cases ev; simp add: onData_def Let_def procExit_def onExit_def)+

lemma run_events_keeps [simp]:
  "sid (sess (run_events w evs)) = sid (sess w)"
  "adapter (sess (run_events w evs)) = adapter (sess w)"
  "maxBufferBytes (sess (run_events w evs)) = maxBufferBytes (sess w)"
  "proc (run_events w evs) = proc w"
  unfolding run_events_def by (induction evs arbitrary: w; simp)+

lemma invoke_run_spawned [simp]:
  "sid (sess (invoke_run inp i now spawned)) = i"
  "adapter (sess (invoke_run inp i now (Inr p))) = Some p"
  "proc (invoke_run inp i now (Inr p)) = Some p"
  "promise (invoke_run inp i now (Inr p)) = Pending"
  "stored (invoke_run inp i now spawned)"
  by (cases spawned; simp add: invoke_run_def Let_def newSession_def startIdleTimers_def armTimer_def split_beta)+

text \<open>The equations that evaluate the model on a concrete run.\<close>

lemmas model_defs = run_events_def invoke_run_def newSession_def startIdleTimers_def armTimer_def
  clearTimer_def cleanup_def onData_def onChunk_def onChunkLine_def scheduleQuietComplete_def
  quietCallback_def idleCallback_def timeoutCallback_def exitFirst_def exitSecond_def procExit_def
  fire_def onExit_def resolve_def reject_def store_of_def store_get_def armed_def Let_def

lemmas string_defs = js_def isLikelySpinnerFrame_def trimEnd_def atLastOrEmpty_def sliceInit_def
  spinners_def matchSgr_def isJsSpace_def isSgrParam_def detectPrompt_def COMMON_PROMPTS_def
  rx_test_def posixPrompt_def powershellPrompt_def chr_def rx_space_def isLineTerminator_def
  utf8Width_def isHighSurrogate_def isLowSurrogate_def

section \<open>Spinner frames\<close>

text \<open>
  What \<open>isLikelySpinnerFrame\<close> computes: both lines are empty once stripped and
  trimmed, or they have the same length, each ends in a spinner character, and they
  agree before it.
\<close>

lemma str_includes_spinner: "str_includes spinners [c] = (c = 124 \<or> c = 47 \<or> c = 45 \<or> c = 92)"
  by (auto simp: spinners_def)

lemma isLikelySpinnerFrame_iff:
  "isLikelySpinnerFrame prev nxt =
     ((trimEnd (stripAnsi prev) = [] \<and> trimEnd (stripAnsi nxt) = []) \<or>
      (trimEnd (stripAnsi prev) \<noteq> [] \<and> trimEnd (stripAnsi nxt) \<noteq> [] \<and>
       length (trimEnd (stripAnsi prev)) = length (trimEnd (stripAnsi nxt)) \<and>
       str_includes spinners [last (trimEnd (stripAnsi prev))] \<and>
       str_includes spinners [last (trimEnd (stripAnsi nxt))] \<and>
       butlast (trimEnd (stripAnsi prev)) = butlast (trimEnd (stripAnsi nxt))))"
proof -
  define a where "a = trimEnd (stripAnsi prev)"
  define b where "b = trimEnd (stripAnsi nxt)"
  have e: "str_includes spinners []" by (simp add: spinners_def)
  have "isLikelySpinnerFrame prev nxt =
     (length a = length b \<and> str_includes spinners (atLastOrEmpty a) \<and>
      str_includes spinners (atLastOrEmpty b) \<and> butlast a = butlast b)"
    unfolding isLikelySpinnerFrame_def Let_def sliceInit_def a_def b_def by auto
  also have "\<dots> = ((a = [] \<and> b = []) \<or>
      (a \<noteq> [] \<and> b \<noteq> [] \<and> length a = length b \<and> str_includes spinners [last a] \<and>
       str_includes spinners [last b] \<and> butlast a = butlast b))"
    using e by (cases "a = []"; cases "b = []") (auto simp: atLastOrEmpty_def)
  finally show ?thesis unfolding a_def b_def .
qed

text \<open>
  Claim C6 says that \<open>isSpinnerFrame(prev, next)\<close> holds only if the final character of
  each stripped and trimmed line is one of the four spinner characters. The code misses
  the line that is empty after stripping and trimming: it has no final character,
  \<open>a.at(-1) || ""\<close> is the empty string, and \<open>"|/-\\".includes("")\<close> is true. So two empty
  lines, or an empty line and a blank one, count as spinner frames.
\<close>

theorem spinner_frame_of_empty_lines:
  "isLikelySpinnerFrame [] [] \<and> isLikelySpinnerFrame [] (js '' '') \<and>
   trimEnd (stripAnsi []) = [] \<and> trimEnd (stripAnsi (js '' '')) = []"
  by (simp add: isLikelySpinnerFrame_def trimEnd_def atLastOrEmpty_def sliceInit_def
      spinners_def js_def matchSgr_def isJsSpace_def)

text \<open>The first of these inputs, taken from the theorem.\<close>

theorem spinner_frame_of_empty_lines_witness:
  "isLikelySpinnerFrame [] []"
  by (rule conjunct1 [OF spinner_frame_of_empty_lines])

section \<open>The signal tool\<close>

text \<open>
  Claim C8 says that \<open>signal\<close> defaults to \<open>SIGINT\<close> and that \<open>CTRL_C\<close> writes the byte 0x03
  to the adapter instead of signalling. On every live session the code does otherwise:
  with no \<open>signal\<close> the one call it makes on the adapter is \<open>kill("SIGTERM")\<close>, and with
  \<open>CTRL_C\<close> it is \<open>kill("CTRL_C")\<close>, with no write. The tool returns success when \<open>kill\<close>
  returns and throws what \<open>kill\<close> throws: the adapter of a child process throws the
  host's error for a signal name that the host does not know, and the adapter of a
  pseudo-terminal sends its own signal whatever the name.
\<close>

theorem signal_default_is_SIGTERM_and_CTRL_C_is_killed:
  assumes "store_get st sessionId = Some s" and "adapter s = Some a"
  shows "snd (invoke_signal kill st sessionId None) = [AdapterKill a (js ''SIGTERM'')] \<and>
         snd (invoke_signal kill st sessionId (Some (js ''CTRL_C''))) = [AdapterKill a (js ''CTRL_C'')] \<and>
         fst (invoke_signal kill st sessionId (Some sig))
           = (case kill a sig of None \<Rightarrow> Inr () | Some err \<Rightarrow> Inl err) \<and>
         (childKill (js ''CTRL_C'') = Some e \<longrightarrow>
            invoke_signal (\<lambda>x. adapterKill ChildAdapter ptyKill childKill) st sessionId
              (Some (js ''CTRL_C''))
            = (Inl e, [AdapterKill a (js ''CTRL_C'')])) \<and>
         invoke_signal (\<lambda>x. adapterKill PtyAdapter None childKill) st sessionId
              (Some (js ''CTRL_C''))
            = (Inr (), [AdapterKill a (js ''CTRL_C'')])"
proof -
  have n: "js ''CTRL_C'' \<noteq> []" by (simp add: js_def)
  show ?thesis
    using assms n
    by (cases "kill a (js ''SIGTERM'')"; cases "kill a (js ''CTRL_C'')"; cases "kill a sig")
      (simp_all add: invoke_signal_def adapterKill_def)
qed

text \<open>
  A live session on a child process, and a host whose \<open>child.kill\<close> knows every signal
  name but \<open>CTRL_C\<close>: without a signal the tool calls \<open>kill("SIGTERM")\<close> and succeeds; with
  \<open>CTRL_C\<close> it calls \<open>kill("CTRL_C")\<close> and throws \<open>Unknown signal: CTRL_C\<close>.
\<close>

theorem signal_CTRL_C_witness:
  "store_get [(js ''s1'', (newSession (js ''s1'') 0)\<lparr>adapter := Some 7, status := Running\<rparr>)] (js ''s1'')
     = Some ((newSession (js ''s1'') 0)\<lparr>adapter := Some 7, status := Running\<rparr>) \<and>
   invoke_signal
     (\<lambda>x. adapterKill ChildAdapter None
        (\<lambda>g. if g = js ''CTRL_C'' then Some (Text (js ''Unknown signal: CTRL_C'')) else None))
     [(js ''s1'', (newSession (js ''s1'') 0)\<lparr>adapter := Some 7, status := Running\<rparr>)]
     (js ''s1'') None
     = (Inr (), [AdapterKill 7 (js ''SIGTERM'')]) \<and>
   invoke_signal
     (\<lambda>x. adapterKill ChildAdapter None
        (\<lambda>g. if g = js ''CTRL_C'' then Some (Text (js ''Unknown signal: CTRL_C'')) else None))
     [(js ''s1'', (newSession (js ''s1'') 0)\<lparr>adapter := Some 7, status := Running\<rparr>)]
     (js ''s1'') (Some (js ''CTRL_C''))
     = (Inl (Text (js ''Unknown signal: CTRL_C'')), [AdapterKill 7 (js ''CTRL_C'')])"
  using signal_default_is_SIGTERM_and_CTRL_C_is_killed
    [where st = "[(js ''s1'', (newSession (js ''s1'') 0)\<lparr>adapter := Some 7, status := Running\<rparr>)]"
       and sessionId = "js ''s1''"
       and s = "(newSession (js ''s1'') 0)\<lparr>adapter := Some 7, status := Running\<rparr>"
       and a = 7
       and kill = "\<lambda>x. adapterKill ChildAdapter None
          (\<lambda>g. if g = js ''CTRL_C'' then Some (Text (js ''Unknown signal: CTRL_C'')) else None)"
       and childKill = "\<lambda>g. if g = js ''CTRL_C'' then Some (Text (js ''Unknown signal: CTRL_C'')) else None"
       and e = "Text (js ''Unknown signal: CTRL_C'')"
       and ptyKill = None
       and sig = "js ''SIGTERM''"]
  by (simp add: invoke_signal_def adapterKill_def store_get_def newSession_def js_def)

section \<open>Protocol errors\<close>

lemma getProp_object: "getProp msg k = Some v \<Longrightarrow> \<not> falsy msg"
  by (cases msg) (simp_all add: getProp_def falsy_def)

text \<open>
  Claim C9, as stated, fails on a line that is not valid JSON: \<open>dispatch\<close> catches the
  syntax error and returns \<open>null\<close>, so the server sends no response at all, and no error
  of code -32700.
\<close>

theorem dispatch_drops_unparsable_line:
  "dispatch [] SyntaxError = None"
  by (simp add: dispatch_def)

text \<open>
  Claim C9, amended: a request carrying an \<open>id\<close>, with \<open>jsonrpc\<close> \<open>"2.0"\<close> and a string
  \<open>method\<close> that is not registered, is answered by an error of code -32601 (\<open>Method not
  found: ...\<close>); a line that is not valid JSON is dropped without a response.
\<close>

theorem dispatch_unknown_method:
  "(getProp msg (js ''jsonrpc'') = Some (JStr (js ''2.0'')) \<and>
    getProp msg (js ''method'') = Some (JStr method) \<and>
    getProp msg (js ''id'') = Some i \<and>
    map_of handlers method = None
    \<longrightarrow> (case dispatch handlers (Parsed msg) of
           Some (ErrorResponse rid code text) \<Rightarrow> code = - 32601 \<and> text = MethodNotFound method
         | _ \<Rightarrow> False))
   \<and> dispatch handlers SyntaxError = None"
proof -
  have "case dispatch handlers (Parsed msg) of
           Some (ErrorResponse rid code text) \<Rightarrow> code = - 32601 \<and> text = MethodNotFound method
         | _ \<Rightarrow> False"
    if a: "getProp msg (js ''jsonrpc'') = Some (JStr (js ''2.0''))"
      and b: "getProp msg (js ''method'') = Some (JStr method)"
      and c: "getProp msg (js ''id'') = Some i"
      and d: "map_of handlers method = None"
  proof -
    have "\<not> falsy msg" using a by (rule getProp_object)
    then have "dispatch handlers (Parsed msg) = Some (ErrorResponse i (- 32601) (MethodNotFound method))"
      using a b c d by (simp add: dispatch_def)
    then show ?thesis by simp
  qed
  moreover have "dispatch handlers SyntaxError = None"
    by (simp add: dispatch_def)
  ultimately show ?thesis by blast
qed

text \<open>The request \<open>{"jsonrpc":"2.0","id":1,"method":"nope"}\<close> on a server that knows no method.\<close>

theorem dispatch_unknown_method_witness:
  "getProp (JObj [(js ''jsonrpc'', JStr (js ''2.0'')), (js ''id'', JNum (Finite 1 0)),
                  (js ''method'', JStr (js ''nope''))])
     (js ''id'') = Some (JNum (Finite 1 0)) \<and>
   (case dispatch []
      (Parsed (JObj [(js ''jsonrpc'', JStr (js ''2.0'')), (js ''id'', JNum (Finite 1 0)),
                     (js ''method'', JStr (js ''nope''))])) of
      Some (ErrorResponse rid code text) \<Rightarrow> code = - 32601 \<and> text = MethodNotFound (js ''nope'')
    | _ \<Rightarrow> False)"
  using dispatch_unknown_method [of
      "JObj [(js ''jsonrpc'', JStr (js ''2.0'')), (js ''id'', JNum (Finite 1 0)),
             (js ''method'', JStr (js ''nope''))]"
      "js ''nope''" "JNum (Finite 1 0)" "[]"]
  by (simp add: getProp_def js_def)

section \<open>The timeout of a command\<close>

text \<open>
  Claim C10: when the timeout of a \<open>terminal.run\<close> call fires while the status is neither
  running nor waiting, the handler sends no signal and leaves every field of the session
  as it is; when the status is running or waiting it sets the status to error, the
  reason to \<open>Command timed out\<close>, and sends SIGTERM to the adapter. The call arms that
  timeout exactly when \<open>timeoutMs\<close> (30000 when omitted) is positive.
\<close>

theorem timeout_acts_only_on_running_or_waiting:
  assumes "map_of (timers w) t = Some RunTimeout" and "proc w = Some p"
  shows "(status (sess w) \<noteq> Running \<and> status (sess w) \<noteq> Waiting \<longrightarrow>
            sess (fire t now w) = sess w \<and> calls (fire t now w) = calls w) \<and>
         (status (sess w) = Running \<or> status (sess w) = Waiting \<longrightarrow>
            sess (fire t now w) = (sess w)\<lparr>status := Error, errorReason := Some CommandTimedOut\<rparr> \<and>
            calls (fire t now w) = calls w @ [AdapterKill p (js ''SIGTERM'')]) \<and>
         armed RunTimeout (invoke_run inp i start (Inr q)) =
           (if 0 < (case in_timeoutMs inp of Some v \<Rightarrow> v | None \<Rightarrow> 30000) then [1] else [])"
proof -
  have a: "armed RunTimeout (invoke_run inp i start (Inr q)) =
           (if 0 < (case in_timeoutMs inp of Some v \<Rightarrow> v | None \<Rightarrow> 30000) then [1] else [])"
    by (simp add: invoke_run_def Let_def newSession_def startIdleTimers_def armTimer_def split_beta
        armed_def)
  show ?thesis using assms a by (simp add: fire_def timeoutCallback_def)
qed

text \<open>
  A call with the default timeout: the timer fires while the session is running; and it
  fires after the idle timer has classified the session as possibly stuck.
\<close>

theorem timeout_acts_only_on_running_or_waiting_witness:
  "map_of (timers (invoke_run (only_command (js ''sleep 60'')) (js ''s1'') 0 (Inr 7))) 1 = Some RunTimeout \<and>
   status (sess (fire 1 30000 (invoke_run (only_command (js ''sleep 60'')) (js ''s1'') 0 (Inr 7)))) = Error \<and>
   calls (fire 1 30000 (invoke_run (only_command (js ''sleep 60'')) (js ''s1'') 0 (Inr 7)))
     = [AdapterKill 7 (js ''SIGTERM'')] \<and>
   status (sess (run_events (invoke_run (only_command (js ''sleep 60'')) (js ''s1'') 0 (Inr 7))
       [Fire 0 50000])) = PossiblyStuck \<and>
   sess (fire 1 50001 (run_events (invoke_run (only_command (js ''sleep 60'')) (js ''s1'') 0 (Inr 7))
       [Fire 0 50000]))
     = sess (run_events (invoke_run (only_command (js ''sleep 60'')) (js ''s1'') 0 (Inr 7)) [Fire 0 50000]) \<and>
   calls (fire 1 50001 (run_events (invoke_run (only_command (js ''sleep 60'')) (js ''s1'') 0 (Inr 7))
       [Fire 0 50000])) = []"
  using timeout_acts_only_on_running_or_waiting
      [of "invoke_run (only_command (js ''sleep 60'')) (js ''s1'') 0 (Inr 7)" 1 7 30000]
    timeout_acts_only_on_running_or_waiting
      [of "run_events (invoke_run (only_command (js ''sleep 60'')) (js ''s1'') 0 (Inr 7)) [Fire 0 50000]"
        1 7 50001]
  by (simp add: model_defs string_defs)

section \<open>The write tool\<close>

text \<open>
  Claim C7, as stated, fails on a session in a terminal state: the tool looks only at
  the adapter handle, which no code path ever clears. Here the quiet timer has completed
  the session after a prompt, and \<open>terminal.write\<close> still writes to the process and
  returns success.
\<close>

theorem write_reaches_a_completed_session:
  "status (sess (run_events (invoke_run (only_command (js ''bash'')) (js ''s1'') 0 (Inr 7))
      [Data (js ''p$ '') 5, Fire 2 305])) = Completed \<and>
   invoke_write
     (store_of (run_events (invoke_run (only_command (js ''bash'')) (js ''s1'') 0 (Inr 7))
        [Data (js ''p$ '') 5, Fire 2 305]))
     (js ''s1'') (js ''ls'' @ [10])
   = (Inr (), [AdapterWrite 7 (js ''ls'' @ [10])])"
  by (simp add: model_defs string_defs invoke_write_def)

text \<open>
  Claim C7, amended: \<open>terminal.write\<close> throws \<open>Session not found or not active\<close> and
  writes nothing when the store has no session of that id or the session has no adapter;
  otherwise it writes the data verbatim and returns success, whatever the status. A
  session whose adapter spawned keeps its adapter, so every write to it succeeds for as
  long as the store holds the session, after completion too.
\<close>

theorem write_checks_only_the_adapter:
  "(store_get st sessionId = None \<longrightarrow>
      invoke_write st sessionId data = (Inl SessionNotFoundOrNotActive, [])) \<and>
   (store_get st sessionId = Some s \<and> adapter s = None \<longrightarrow>
      invoke_write st sessionId data = (Inl SessionNotFoundOrNotActive, [])) \<and>
   (store_get st sessionId = Some s \<and> adapter s = Some a \<longrightarrow>
      invoke_write st sessionId data = (Inr (), [AdapterWrite a data])) \<and>
   (stored (run_events (invoke_run inp i now (Inr p)) evs) \<longrightarrow>
      invoke_write (store_of (run_events (invoke_run inp i now (Inr p)) evs)) i data
      = (Inr (), [AdapterWrite p data]))"
  by (simp add: invoke_write_def store_of_def store_get_def)

text \<open>
  An empty store, a session without adapter, a session in error with its adapter, and the
  session of a command that has exited with code 0.
\<close>

theorem write_checks_only_the_adapter_witness:
  "invoke_write [] (js ''s1'') (js ''q'') = (Inl SessionNotFoundOrNotActive, []) \<and>
   invoke_write [(js ''s1'', newSession (js ''s1'') 0)] (js ''s1'') (js ''q'')
     = (Inl SessionNotFoundOrNotActive, []) \<and>
   invoke_write [(js ''s1'', (newSession (js ''s1'') 0)\<lparr>adapter := Some 7, status := Error\<rparr>)] (js ''s1'') (js ''q'')
     = (Inr (), [AdapterWrite 7 (js ''q'')]) \<and>
   stored (run_events (invoke_run (only_command (js ''true'')) (js ''s1'') 0 (Inr 7)) [Exit (Some 0) None]) \<and>
   status (sess (run_events (invoke_run (only_command (js ''true'')) (js ''s1'') 0 (Inr 7)) [Exit (Some 0) None]))
     = Completed \<and>
   invoke_write (store_of (run_events (invoke_run (only_command (js ''true'')) (js ''s1'') 0 (Inr 7))
       [Exit (Some 0) None])) (js ''s1'') (js ''q'')
     = (Inr (), [AdapterWrite 7 (js ''q'')])"
  using write_checks_only_the_adapter [of "[]" "js ''s1''" "js ''q''"]
    write_checks_only_the_adapter [of "[(js ''s1'', newSession (js ''s1'') 0)]" "js ''s1''" "js ''q''"
      "newSession (js ''s1'') 0"]
    write_checks_only_the_adapter
      [of "[(js ''s1'', (newSession (js ''s1'') 0)\<lparr>adapter := Some 7, status := Error\<rparr>)]" "js ''s1''"
        "js ''q''" "(newSession (js ''s1'') 0)\<lparr>adapter := Some 7, status := Error\<rparr>" 7]
    write_checks_only_the_adapter [of _ _ "js ''q''" _ _ "only_command (js ''true'')" "js ''s1''" 0 7
      "[Exit (Some 0) None]"]
  by (simp add: model_defs string_defs)

section \<open>The status never goes back\<close>

lemma status_quietCallback:
  "status (sess (quietCallback w)) =
     (if status (sess w) \<noteq> Completed \<and> status (sess w) \<noteq> Error then Completed else status (sess w))"
  by (cases "idleTimer (sess w)") (simp_all add: quietCallback_def Let_def)

lemma status_idleCallback:
  "status (sess w) \<noteq> Running \<Longrightarrow> status (sess w) \<noteq> Waiting \<Longrightarrow>
   status (sess (idleCallback now w)) = status (sess w)"
  by (simp add: idleCallback_def Let_def)

lemma status_timeoutCallback:
  "status (sess w) \<noteq> Running \<Longrightarrow> status (sess w) \<noteq> Waiting \<Longrightarrow>
   status (sess (timeoutCallback w)) = status (sess w)"
  by (simp add: timeoutCallback_def)

lemma status_fire_settled:
  assumes "status (sess w) \<noteq> Running" and "status (sess w) \<noteq> Waiting"
  shows "status (sess (fire t now w)) = status (sess w) \<or> status (sess (fire t now w)) = Completed"
proof (cases "map_of (timers w) t")
  case None
  then show ?thesis by (simp add: fire_def)
next
  case (Some k)
  then show ?thesis using assms
    by (cases k) (simp_all add: fire_def status_quietCallback status_idleCallback status_timeoutCallback)
qed

lemma status_step_settled:
  assumes "status (sess w) \<noteq> Idle" and "status (sess w) \<noteq> Running" and "status (sess w) \<noteq> Waiting"
  shows "status (sess (step w ev)) \<noteq> Idle \<and> status (sess (step w ev)) \<noteq> Running \<and>
         status (sess (step w ev)) \<noteq> Waiting"
proof (cases ev)
  case (Data chunk now)
  then show ?thesis using assms by (simp add: onData_def Let_def)
next
  case (Exit code signal)
  then show ?thesis by (simp add: procExit_def)
next
  case (Fire t now)
  then show ?thesis using assms status_fire_settled [of w t now] by auto
next
  case HeuristicsExit
  then show ?thesis using assms by (simp add: onExit_def)
qed

lemma status_run_events_settled:
  assumes "status (sess w) \<noteq> Idle" and "status (sess w) \<noteq> Running" and "status (sess w) \<noteq> Waiting"
  shows "status (sess (run_events w evs)) \<noteq> Idle \<and> status (sess (run_events w evs)) \<noteq> Running \<and>
         status (sess (run_events w evs)) \<noteq> Waiting"
  using assms unfolding run_events_def
proof (induction evs arbitrary: w)
  case Nil
  then show ?case by simp
next
  case (Cons ev evs)
  from status_step_settled [OF Cons.prems, of ev] Cons.IH [of "step w ev"]
  show ?case by simp
qed

text \<open>
  Claim C4, as stated, fails: the idle timer has classified a session as possibly stuck,
  a chunk arrives and updates \<open>lastByteAt\<close>, and at the next tick, 999 ms later and far
  below both thresholds, the session is still possibly stuck and not running.
\<close>

theorem possibly_stuck_stays_after_output:
  "status (sess (run_events (invoke_run (only_command (js ''cat'')) (js ''s1'') 0 (Inr 7))
      [Fire 0 50000])) = PossiblyStuck \<and>
   lastByteAt (sess (run_events (invoke_run (only_command (js ''cat'')) (js ''s1'') 0 (Inr 7))
      [Fire 0 50000, Data (js ''a'') 50001])) = 50001 \<and>
   status (sess (run_events (invoke_run (only_command (js ''cat'')) (js ''s1'') 0 (Inr 7))
      [Fire 0 50000, Data (js ''a'') 50001, Fire 0 51000])) = PossiblyStuck"
  by (simp add: model_defs string_defs)

text \<open>
  Claim C4, amended: for every session in status possibly-stuck, new output updates
  \<open>lastByteAt\<close> and leaves the status as it is, and the next tick of the idle timer leaves
  it possibly stuck whatever the thresholds and the time: the idle timer only moves
  running to waiting and running or waiting to possibly-stuck. No sequence of chunks,
  timers and exits brings the session back to running or waiting.
\<close>

theorem possibly_stuck_never_returns_to_running:
  assumes "status (sess w) = PossiblyStuck"
  shows "lastByteAt (sess (step w (Data chunk now))) = now \<and>
         status (sess (step w (Data chunk now))) = PossiblyStuck \<and>
         status (sess (idleCallback tick (step w (Data chunk now)))) = PossiblyStuck \<and>
         status (sess (run_events w evs)) \<noteq> Running \<and>
         status (sess (run_events w evs)) \<noteq> Waiting"
proof -
  have d: "status (sess (step w (Data chunk now))) = PossiblyStuck"
    using assms by (simp add: onData_def Let_def)
  have i: "status (sess (idleCallback tick (step w (Data chunk now)))) = PossiblyStuck"
    using d by (simp add: status_idleCallback)
  have l: "lastByteAt (sess (step w (Data chunk now))) = now"
    by (simp add: onData_def Let_def)
  have "status (sess w) \<noteq> Idle" "status (sess w) \<noteq> Running" "status (sess w) \<noteq> Waiting"
    using assms by simp_all
  from status_run_events_settled [OF this, of evs] d i l show ?thesis by simp
qed

text \<open>The session of the counterexample, with the same chunk and tick.\<close>

theorem possibly_stuck_never_returns_to_running_witness:
  "status (sess (run_events (invoke_run (only_command (js ''cat'')) (js ''s1'') 0 (Inr 7)) [Fire 0 50000]))
     = PossiblyStuck \<and>
   lastByteAt (sess (run_events (invoke_run (only_command (js ''cat'')) (js ''s1'') 0 (Inr 7))
     [Fire 0 50000, Data (js ''a'') 50001])) = 50001 \<and>
   status (sess (run_events (invoke_run (only_command (js ''cat'')) (js ''s1'') 0 (Inr 7))
     [Fire 0 50000, Data (js ''a'') 50001, Fire 0 51000])) \<noteq> Running"
  using possibly_stuck_never_returns_to_running
    [of "run_events (invoke_run (only_command (js ''cat'')) (js ''s1'') 0 (Inr 7)) [Fire 0 50000]"
      "js ''a''" 50001 51000 "[Data (js ''a'') 50001, Fire 0 51000]"]
  by (simp add: model_defs string_defs)

section \<open>What \<open>terminal.run\<close> returns\<close>

lemma promise_step_no_exit: "no_exit [ev] \<Longrightarrow> promise (step w ev) = promise w"
  by (cases ev) (simp_all add: onData_def Let_def onExit_def)

lemma promise_run_events_no_exit: "no_exit evs \<Longrightarrow> promise (run_events w evs) = promise w"
  unfolding run_events_def
proof (induction evs arbitrary: w)
  case Nil
  then show ?case by simp
next
  case (Cons ev evs)
  then have "no_exit [ev]" and "no_exit evs" by (cases ev; simp)+
  with Cons.IH [of "step w ev"] promise_step_no_exit [of ev w] show ?case by simp
qed

lemma promise_procExit:
  "promise (procExit code signal w) =
     (case promise w of
        Pending \<Rightarrow> Fulfilled
          \<lparr>r_sessionId = sid (sess w), r_output = concat (buf (sess w)), r_exitCode = code,
           r_success = (code = Some 0),
           r_error = (if code \<noteq> Some 0 then Some (ProcessExited code None) else None)\<rparr>
      | q \<Rightarrow> q)"
  by (cases "promise w") (simp_all add: procExit_def promise_exitSecond resolve_def)

lemma promise_step_settled: "promise w \<noteq> Pending \<Longrightarrow> promise (step w ev) = promise w"
  by (cases ev; cases "promise w")
    (simp_all add: onData_def Let_def onExit_def promise_procExit)

lemma promise_run_events_settled:
  "promise w \<noteq> Pending \<Longrightarrow> promise (run_events w evs) = promise w"
  unfolding run_events_def
  by (induction evs arbitrary: w) (simp_all add: promise_step_settled)

lemma run_promise:
  assumes "no_exit evs"
  shows "promise (run_events (invoke_run inp i now (Inr p)) evs) = Pending \<and>
         promise (run_events (step (run_events (invoke_run inp i now (Inr p)) evs) (Exit code signal)) evs')
           = Fulfilled
               \<lparr>r_sessionId = i,
                r_output = concat (buf (sess (run_events (invoke_run inp i now (Inr p)) evs))),
                r_exitCode = code, r_success = (code = Some 0),
                r_error = (if code \<noteq> Some 0 then Some (ProcessExited code None) else None)\<rparr> \<and>
         status (sess (step (run_events (invoke_run inp i now (Inr p)) evs) (Exit code signal)))
           = (if code \<noteq> Some 0 \<or> signal \<noteq> None then Error else Completed) \<and>
         exitCode (sess (step (run_events (invoke_run inp i now (Inr p)) evs) (Exit code signal))) = Some code \<and>
         exitSignal (sess (step (run_events (invoke_run inp i now (Inr p)) evs) (Exit code signal))) = Some signal \<and>
         promise (invoke_run inp i now (Inl m)) = Rejected (FailedToStartCommand m) \<and>
         status (sess (invoke_run inp i now (Inl m))) = Error \<and>
         errorReason (sess (invoke_run inp i now (Inl m))) = Some m"
proof -
  define w where "w = run_events (invoke_run inp i now (Inr p)) evs"
  have pend: "promise w = Pending"
    using promise_run_events_no_exit [OF assms, of "invoke_run inp i now (Inr p)"] by (simp add: w_def)
  have sidw: "sid (sess w) = i" by (simp add: w_def)
  have ex: "promise (step w (Exit code signal)) = Fulfilled
               \<lparr>r_sessionId = i, r_output = concat (buf (sess w)),
                r_exitCode = code, r_success = (code = Some 0),
                r_error = (if code \<noteq> Some 0 then Some (ProcessExited code None) else None)\<rparr>"
    using pend sidw by (simp add: promise_procExit)
  then have "promise (step w (Exit code signal)) \<noteq> Pending" by simp
  from promise_run_events_settled [OF this, of evs'] ex
  have later: "promise (run_events (step w (Exit code signal)) evs') = Fulfilled
               \<lparr>r_sessionId = i, r_output = concat (buf (sess w)),
                r_exitCode = code, r_success = (code = Some 0),
                r_error = (if code \<noteq> Some 0 then Some (ProcessExited code None) else None)\<rparr>"
    by simp
  have st: "status (sess (step w (Exit code signal)))
           = (if code \<noteq> Some 0 \<or> signal \<noteq> None then Error else Completed)"
    "exitCode (sess (step w (Exit code signal))) = Some code"
    "exitSignal (sess (step w (Exit code signal))) = Some signal"
    by (simp_all add: procExit_def)
  have fail: "promise (invoke_run inp i now (Inl m)) = Rejected (FailedToStartCommand m)"
    "status (sess (invoke_run inp i now (Inl m))) = Error"
    "errorReason (sess (invoke_run inp i now (Inl m))) = Some m"
    by (simp_all add: invoke_run_def Let_def)
  from pend later st fail show ?thesis unfolding w_def by simp
qed

lemma maybeRunPTY_throws:
  "maybeRunPTY usePty pty child = Inl e \<Longrightarrow> \<exists>m. child = Inl m \<and> e = FailedToStartCommand m"
  by (cases usePty; cases pty; cases child) (simp_all add: maybeRunPTY_def)




section \<open>Timers and adapter of a terminal session\<close>

lemma armed_clear_quiet:
  assumes "timers_ok w" and "map_of (timers w) t = Some QuietComplete"
  shows "armed QuietComplete (clearTimer t w) = []"
proof -
  from assms(2) have "(t, QuietComplete) \<in> set (timers w)" by (rule map_of_SomeD)
  with assms(1) have q: "quietTimer (sess w) = Some t" by (auto simp: timers_ok_def)
  with assms(1) show ?thesis by (auto simp: armed_def filter_empty_conv timers_ok_def)
qed

lemma armed_quietCallback:
  assumes "timers_ok w" and "status (sess w) \<noteq> Completed" and "status (sess w) \<noteq> Error"
  shows "armed IdlePoll (quietCallback w) = [] \<and>
         (armed QuietComplete w = [] \<longrightarrow> armed QuietComplete (quietCallback w) = [])"
  using assms
  by (cases "idleTimer (sess w)") (auto simp: quietCallback_def Let_def armed_def filter_empty_conv timers_ok_def)

lemma quiet_fire_disarms:
  assumes ok: "timers_ok w" and t: "map_of (timers w) t = Some QuietComplete"
    and live: "status (sess w) \<noteq> Completed" "status (sess w) \<noteq> Error"
  shows "status (sess (fire t now w)) = Completed \<and> armed QuietComplete (fire t now w) = [] \<and>
         armed IdlePoll (fire t now w) = []"
proof -
  let ?c = "clearTimer t w"
  have f: "fire t now w = quietCallback ?c" using t by (simp add: fire_def)
  have okc: "timers_ok ?c" using ok by (rule timers_ok_clearTimer)
  have q0: "armed QuietComplete ?c = []" using ok t by (rule armed_clear_quiet)
  have live': "status (sess ?c) \<noteq> Completed" "status (sess ?c) \<noteq> Error" using live by simp_all
  from armed_quietCallback [OF okc live'] q0
  have "armed IdlePoll (quietCallback ?c) = []" "armed QuietComplete (quietCallback ?c) = []" by simp_all
  moreover have "status (sess (quietCallback ?c)) = Completed"
    using live' by (simp add: status_quietCallback)
  ultimately show ?thesis using f by simp
qed




section \<open>The output buffer\<close>

lemma trimBuffer_sum:
  "tot = int (sum_list (map byteLength b)) \<Longrightarrow>
   snd (trimBuffer cap b tot) = int (sum_list (map byteLength (fst (trimBuffer cap b tot))))"
  by (induction cap b tot rule: trimBuffer.induct) simp_all

lemma trimBuffer_cap:
  "snd (trimBuffer cap b tot) \<le> cap \<or> length (fst (trimBuffer cap b tot)) \<le> 1"
  by (induction cap b tot rule: trimBuffer.induct) simp_all

lemma trimBuffer_suffix:
  "\<exists>k. k < length (b @ [x]) \<and> fst (trimBuffer cap (b @ [x]) tot) = drop k (b @ [x])"
proof (induction b arbitrary: tot)
  case Nil
  show ?case by (rule exI [of _ 0]) simp
next
  case (Cons y ys)
  obtain z zs where yz: "ys @ [x] = z # zs" by (cases "ys @ [x]") simp_all
  show ?case
  proof (cases "tot > cap")
    case True
    from Cons.IH [of "tot - int (byteLength y)"] obtain k where
      k: "k < length (ys @ [x])" "fst (trimBuffer cap (ys @ [x]) (tot - int (byteLength y))) = drop k (ys @ [x])"
      by blast
    have "fst (trimBuffer cap ((y # ys) @ [x]) tot) = drop (Suc k) ((y # ys) @ [x])"
      using True k(2) yz by simp
    moreover have "Suc k < length ((y # ys) @ [x])" using k(1) by simp
    ultimately show ?thesis by blast
  next
    case False
    have "fst (trimBuffer cap ((y # ys) @ [x]) tot) = drop 0 ((y # ys) @ [x])"
      using False yz by simp
    then show ?thesis by (intro exI [of _ 0]) simp
  qed
qed


lemma step_buffer_other:
  "no_exit [ev] \<or> (\<exists>c g. ev = Exit c g) \<Longrightarrow> (\<forall>chunk now. ev \<noteq> Data chunk now) \<Longrightarrow>
   buf (sess (step w ev)) = buf (sess w) \<and> totalBytes (sess (step w ev)) = totalBytes (sess w)"
  by (cases ev) (simp_all add: procExit_def onExit_def)

lemma step_buffer_data:
  "buf (sess (step w (Data chunk now))) =
     fst (trimBuffer (bufferCap (sess w)) (buf (sess w) @ [chunk])
            (totalBytes (sess w) + int (byteLength chunk))) \<and>
   totalBytes (sess (step w (Data chunk now))) =
     snd (trimBuffer (bufferCap (sess w)) (buf (sess w) @ [chunk])
            (totalBytes (sess w) + int (byteLength chunk)))"
proof -
  have "buf (sess (onData chunk now w)) = buf (sess (onChunk chunk now w))"
    "totalBytes (sess (onData chunk now w)) = totalBytes (sess (onChunk chunk now w))"
    by (simp_all add: onData_def Let_def)
  then show ?thesis by (simp add: onChunk_buffer)
qed

lemma bufferCap_step: "bufferCap (sess (step w ev)) = bufferCap (sess w)"
  by (simp add: bufferCap_def)

lemma buffer_step:
  assumes "totalBytes (sess w) = bufferBytes (sess w)"
    and "totalBytes (sess w) \<le> bufferCap (sess w) \<or> length (buf (sess w)) \<le> 1"
  shows "totalBytes (sess (step w ev)) = bufferBytes (sess (step w ev)) \<and>
         (totalBytes (sess (step w ev)) \<le> bufferCap (sess (step w ev)) \<or>
          length (buf (sess (step w ev))) \<le> 1)"
proof (cases "\<exists>chunk now. ev = Data chunk now")
  case True
  then obtain chunk now where ev: "ev = Data chunk now" by blast
  have "totalBytes (sess w) + int (byteLength chunk) = int (sum_list (map byteLength (buf (sess w) @ [chunk])))"
    using assms(1) by (simp add: bufferBytes_def)
  from trimBuffer_sum [OF this, of "bufferCap (sess w)"]
    trimBuffer_cap [of "bufferCap (sess w)" "buf (sess w) @ [chunk]" "totalBytes (sess w) + int (byteLength chunk)"]
    step_buffer_data [of w chunk now]
  show ?thesis unfolding ev bufferCap_step by (simp add: bufferBytes_def)
next
  case False
  have "no_exit [ev] \<or> (\<exists>c g. ev = Exit c g)" by (cases ev) simp_all
  from step_buffer_other [OF this, of w] False assms show ?thesis
    by (simp add: bufferBytes_def bufferCap_step)
qed

lemma buffer_run_events:
  assumes "totalBytes (sess w) = bufferBytes (sess w)"
    and "totalBytes (sess w) \<le> bufferCap (sess w) \<or> length (buf (sess w)) \<le> 1"
  shows "totalBytes (sess (run_events w evs)) = bufferBytes (sess (run_events w evs)) \<and>
         (totalBytes (sess (run_events w evs)) \<le> bufferCap (sess (run_events w evs)) \<or>
          length (buf (sess (run_events w evs))) \<le> 1)"
  using assms unfolding run_events_def
proof (induction evs arbitrary: w)
  case Nil
  then show ?case by simp
next
  case (Cons ev evs)
  from buffer_step [OF Cons.prems, of ev]
  have s1: "totalBytes (sess (step w ev)) = bufferBytes (sess (step w ev))"
    and s2: "totalBytes (sess (step w ev)) \<le> bufferCap (sess (step w ev)) \<or>
             length (buf (sess (step w ev))) \<le> 1"
    by blast+
  show ?case unfolding foldl_Cons by (rule Cons.IH [OF s1 s2])
qed

lemma buffer_invoke_run:
  "buf (sess (invoke_run inp i now spawned)) = [] \<and> totalBytes (sess (invoke_run inp i now spawned)) = 0"
  by (cases spawned)
    (simp_all add: invoke_run_def Let_def newSession_def startIdleTimers_def armTimer_def split_beta)

lemma buffer_invariant:
  "totalBytes (sess (run_events (invoke_run inp i now spawned) evs))
     = bufferBytes (sess (run_events (invoke_run inp i now spawned) evs)) \<and>
   (totalBytes (sess (run_events (invoke_run inp i now spawned) evs))
      \<le> bufferCap (sess (run_events (invoke_run inp i now spawned) evs)) \<or>
    length (buf (sess (run_events (invoke_run inp i now spawned) evs))) \<le> 1) \<and>
   (0 < maxBufferBytes (sess (run_events (invoke_run inp i now spawned) evs)) \<longrightarrow>
      totalBytes (sess (run_events (invoke_run inp i now spawned) evs))
        \<le> maxBufferBytes (sess (run_events (invoke_run inp i now spawned) evs)) \<or>
      length (buf (sess (run_events (invoke_run inp i now spawned) evs))) = 1) \<and>
   (\<exists>k. k < length (buf (sess w) @ [chunk]) \<and>
        buf (sess (step w (Data chunk tick))) = drop k (buf (sess w) @ [chunk]))"
proof -
  define v where "v = run_events (invoke_run inp i now spawned) evs"
  have init: "totalBytes (sess (invoke_run inp i now spawned)) = bufferBytes (sess (invoke_run inp i now spawned))"
    "totalBytes (sess (invoke_run inp i now spawned)) \<le> bufferCap (sess (invoke_run inp i now spawned)) \<or>
     length (buf (sess (invoke_run inp i now spawned))) \<le> 1"
    using buffer_invoke_run [of inp i now spawned] by (simp_all add: bufferBytes_def)
  from buffer_run_events [OF init, of evs]
  have a: "totalBytes (sess v) = bufferBytes (sess v)"
    and b: "totalBytes (sess v) \<le> bufferCap (sess v) \<or> length (buf (sess v)) \<le> 1"
    unfolding v_def by blast+
  have c: "totalBytes (sess v) \<le> maxBufferBytes (sess v) \<or> length (buf (sess v)) = 1"
    if pos: "0 < maxBufferBytes (sess v)"
  proof (cases "buf (sess v)")
    case Nil
    with a pos show ?thesis by (simp add: bufferBytes_def)
  next
    case (Cons x xs)
    with b pos show ?thesis by (auto simp: bufferCap_def)
  qed
  have d: "\<exists>k. k < length (buf (sess w) @ [chunk]) \<and>
        buf (sess (step w (Data chunk tick))) = drop k (buf (sess w) @ [chunk])"
    using trimBuffer_suffix [of "buf (sess w)" chunk "bufferCap (sess w)"
        "totalBytes (sess w) + int (byteLength chunk)"]
      step_buffer_data [of w chunk tick] by simp
  from a b c d show ?thesis unfolding v_def by blast
qed

lemma maxBufferBytes_invoke_run:
  "maxBufferBytes (sess (invoke_run inp i now spawned))
     = (case in_maxBufferBytes inp of Some v \<Rightarrow> v | None \<Rightarrow> 2 * 1024 * 1024)"
  by (cases spawned)
    (simp_all add: invoke_run_def Let_def newSession_def startIdleTimers_def armTimer_def split_beta)

text \<open>
  Claim C2: for every session of a \<open>terminal.run\<close> call with a positive \<open>maxBufferBytes\<close>
  (the default when the argument is omitted), after every sequence of chunks, exits and
  timer events, \<open>totalBytes\<close> is the sum of the UTF-8 byte lengths of the chunks in the
  buffer, and either \<open>totalBytes\<close> is at most \<open>maxBufferBytes\<close> or the buffer holds exactly
  one chunk. A chunk is appended whole and only oldest chunks are dropped: the buffer
  after a chunk is a suffix of the buffer before it followed by the chunk, and it holds
  the chunk.
\<close>

theorem buffer_bytes_and_cap:
  assumes "case in_maxBufferBytes inp of None \<Rightarrow> True | Some m \<Rightarrow> 0 < m"
  shows "totalBytes (sess (run_events (invoke_run inp i now spawned) evs))
           = bufferBytes (sess (run_events (invoke_run inp i now spawned) evs)) \<and>
         (totalBytes (sess (run_events (invoke_run inp i now spawned) evs))
            \<le> maxBufferBytes (sess (run_events (invoke_run inp i now spawned) evs)) \<or>
          length (buf (sess (run_events (invoke_run inp i now spawned) evs))) = 1) \<and>
         (\<exists>k. k < length (buf (sess w) @ [chunk]) \<and>
              buf (sess (step w (Data chunk tick))) = drop k (buf (sess w) @ [chunk]))"
proof -
  have "maxBufferBytes (sess (run_events (invoke_run inp i now spawned) evs))
      = (case in_maxBufferBytes inp of Some v \<Rightarrow> v | None \<Rightarrow> 2 * 1024 * 1024)"
    by (simp only: run_events_keeps maxBufferBytes_invoke_run)
  with assms have pos: "0 < maxBufferBytes (sess (run_events (invoke_run inp i now spawned) evs))"
    by (cases "in_maxBufferBytes inp") simp_all
  from buffer_invariant [of inp i now spawned evs w chunk tick] pos show ?thesis by blast
qed

text \<open>
  The default cap and chunks of 2, 2 and 4 bytes: all three stay. A cap of 3 bytes and
  the same chunks: the last chunk alone stays, above the cap.
\<close>

theorem buffer_bytes_and_cap_witness:
  "totalBytes (sess (run_events (invoke_run (only_command (js ''seq 3'')) (js ''s1'') 0 (Inr 7))
      [Data (js ''12'') 1, Data (js ''34'') 2, Data (js ''5678'') 3])) = 8 \<and>
   maxBufferBytes (sess (run_events (invoke_run (only_command (js ''seq 3'')) (js ''s1'') 0 (Inr 7))
      [Data (js ''12'') 1, Data (js ''34'') 2, Data (js ''5678'') 3])) = 2097152 \<and>
   buf (sess (run_events (invoke_run (only_command (js ''seq 3'')) (js ''s1'') 0 (Inr 7))
      [Data (js ''12'') 1, Data (js ''34'') 2, Data (js ''5678'') 3])) = [js ''12'', js ''34'', js ''5678''] \<and>
   maxBufferBytes (sess (run_events
      (invoke_run ((only_command (js ''seq 3''))\<lparr>in_maxBufferBytes := Some 3\<rparr>) (js ''s1'') 0 (Inr 7))
      [Data (js ''12'') 1, Data (js ''34'') 2, Data (js ''5678'') 3])) = 3 \<and>
   totalBytes (sess (run_events
      (invoke_run ((only_command (js ''seq 3''))\<lparr>in_maxBufferBytes := Some 3\<rparr>) (js ''s1'') 0 (Inr 7))
      [Data (js ''12'') 1, Data (js ''34'') 2, Data (js ''5678'') 3])) = 4 \<and>
   buf (sess (run_events
      (invoke_run ((only_command (js ''seq 3''))\<lparr>in_maxBufferBytes := Some 3\<rparr>) (js ''s1'') 0 (Inr 7))
      [Data (js ''12'') 1, Data (js ''34'') 2, Data (js ''5678'') 3])) = [js ''5678''] \<and>
   bufferBytes (sess (run_events
      (invoke_run ((only_command (js ''seq 3''))\<lparr>in_maxBufferBytes := Some 3\<rparr>) (js ''s1'') 0 (Inr 7))
      [Data (js ''12'') 1, Data (js ''34'') 2, Data (js ''5678'') 3])) = 4"
  using buffer_bytes_and_cap
    [where inp = "only_command (js ''seq 3'')" and i = "js ''s1''" and now = 0 and spawned = "Inr 7"
       and evs = "[Data (js ''12'') 1, Data (js ''34'') 2, Data (js ''5678'') 3]"]
    buffer_bytes_and_cap
    [where inp = "(only_command (js ''seq 3''))\<lparr>in_maxBufferBytes := Some 3\<rparr>" and i = "js ''s1''"
       and now = 0 and spawned = "Inr 7"
       and evs = "[Data (js ''12'') 1, Data (js ''34'') 2, Data (js ''5678'') 3]"]
  by (simp add: model_defs string_defs bufferBytes_def bufferCap_def)

section \<open>Rearming the quiet timer\<close>

lemma armed_scheduleQuietComplete:
  assumes "timers_ok w"
  shows "armed QuietComplete (scheduleQuietComplete w) = [nextTimer w]"
  using assms
  by (cases "quietTimer (sess w)") (auto simp: armed_def timers_ok_def filter_empty_conv)

lemma map_of_fresh:
  fixes n :: timer
  assumes "\<forall>tk \<in> set xs. fst tk < n"
  shows "map_of (xs @ [(n, k)]) n = Some k"
proof -
  have "n \<notin> fst ` set xs"
  proof
    assume "n \<in> fst ` set xs"
    then obtain tk where "tk \<in> set xs" "fst tk = n" by auto
    with assms have "n < n" by auto
    then show False by simp
  qed
  then have "map_of xs n = None" by (rule iffD2 [OF map_of_eq_None_iff])
  then show ?thesis by (simp add: map_add_def)
qed

lemma map_of_scheduleQuietComplete:
  assumes "timers_ok w"
  shows "map_of (timers (scheduleQuietComplete w)) (nextTimer w) = Some QuietComplete"
proof -
  have "\<forall>tk \<in> set (case quietTimer (sess w) of
        Some t \<Rightarrow> filter (\<lambda>tk. fst tk \<noteq> t) (timers w)
      | None \<Rightarrow> timers w). fst tk < nextTimer w"
    using assms by (cases "quietTimer (sess w)") (auto simp: timers_ok_def)
  from map_of_fresh [OF this, of QuietComplete] show ?thesis
    by (simp only: scheduleQuietComplete_fields)
qed

lemma fire_quiet_once:
  assumes ok: "timers_ok w" and t: "map_of (timers w) t = Some QuietComplete"
  shows "armed QuietComplete (fire t now w) = [] \<and> fire t tick (fire t now w) = fire t now w \<and>
         status (sess (fire t now w)) =
           (if status (sess w) \<noteq> Completed \<and> status (sess w) \<noteq> Error then Completed
            else status (sess w))"
proof -
  let ?c = "clearTimer t w"
  have f: "fire t now w = quietCallback ?c" using t by (simp add: fire_def)
  have q0: "armed QuietComplete ?c = []" using ok t by (rule armed_clear_quiet)
  have sub: "set (timers (quietCallback ?c)) \<subseteq> set (timers ?c)"
    by (cases "idleTimer (sess w)") (auto simp: quietCallback_def Let_def)
  have a: "armed QuietComplete (quietCallback ?c) = []"
    using q0 sub by (auto simp: armed_def filter_empty_conv)
  have "t \<notin> fst ` set (timers ?c)" by auto
  with sub have "t \<notin> fst ` set (timers (quietCallback ?c))" by blast
  then have "map_of (timers (quietCallback ?c)) t = None" by (rule iffD2 [OF map_of_eq_None_iff])
  then have b: "fire t tick (quietCallback ?c) = quietCallback ?c" by (simp add: fire_def)
  have c: "status (sess (quietCallback ?c)) =
           (if status (sess w) \<noteq> Completed \<and> status (sess w) \<noteq> Error then Completed
            else status (sess w))"
    by (simp add: status_quietCallback)
  from a b c show ?thesis unfolding f by simp
qed




end
